theory Spec2Isabelle
  imports Complex_Main "HOL-Library.Char_ord" "HOL-Library.List_Lexorder" "HOL-Library.Sublist"
    "HOL-Library.Multiset"
begin

section \<open>Numbers and errors\<close>

text \<open>
  The prediction module computes on IEEE double values. The slack arithmetic of the
  Ensemble Corrector is modelled on \<^typ>\<open>real\<close>: every operation is the exact one,
  rounding and overflow are left out, and the slack arrays hold finite values.
  A Python exception is a value of \<open>py_error\<close>; a function that can raise returns
  \<open>py_error + 'a\<close>.
\<close>

datatype py_error = IndexError | ValueError | KeyError | HTTPException

definition np_mean :: "real list \<Rightarrow> real" where
  "np_mean xs = sum_list xs / real (length xs)"

definition np_std :: "real list \<Rightarrow> real" where
  "np_std xs = sqrt (np_mean (map (\<lambda>x. \<bar>x - np_mean xs\<bar> ^ 2) xs))"

section \<open>Ensemble Corrector\<close>

subsection \<open>\<open>calculate_realistic_route_slack\<close> (prediction.py 2262--2315)\<close>

text \<open>The tier chain sets \<open>weight_to_worse\<close> and \<open>optimization\<close> together.\<close>

definition realistic_tier :: "real \<Rightarrow> real \<times> real" where
  "realistic_tier min_slack =
     (if \<bar>min_slack\<bar> > 1.0 then (0.95, 0.005)
      else if \<bar>min_slack\<bar> > 0.5 then (0.92, 0.01)
      else if \<bar>min_slack\<bar> > 0.2 then (0.88, 0.02)
      else (0.85, 0.025))"

definition realistic_base_route :: "real \<Rightarrow> real \<Rightarrow> real" where
  "realistic_base_route place_slack cts_slack =
     (let min_slack = min place_slack cts_slack;
          avg_slack = (place_slack + cts_slack) / 2;
          weight_to_worse = fst (realistic_tier min_slack)
      in min_slack * weight_to_worse + avg_slack * (1 - weight_to_worse))"

definition calculate_realistic_route_slack :: "real \<Rightarrow> real \<Rightarrow> real" where
  "calculate_realistic_route_slack place_slack cts_slack =
     (let min_slack = min place_slack cts_slack;
          max_slack = max place_slack cts_slack;
          optimization = snd (realistic_tier min_slack);
          base_route = realistic_base_route place_slack cts_slack;
          slack_diff = \<bar>place_slack - cts_slack\<bar>;
          optimization_factor = min (slack_diff * 0.1) optimization;
          route_slack = base_route + optimization_factor;
          upper_bound = max_slack + 0.02;
          lower_bound = min_slack - 0.03;
          route_slack = max route_slack lower_bound;
          route_slack = min route_slack upper_bound
      in route_slack)"

subsection \<open>\<open>apply_training_data_bounds\<close> (prediction.py 2432--2484)\<close>

text \<open>
  The statistics dictionary written at the end of training carries the keys
  \<open>min\<close>, \<open>max\<close>, \<open>mean\<close> and \<open>std\<close>; the bounds step reads it by key.
\<close>

record training_stats =
  st_min :: real
  st_max :: real
  st_mean :: real
  st_std :: real

definition final_lower :: "real \<Rightarrow> real \<Rightarrow> training_stats \<Rightarrow> real" where
  "final_lower place_slack cts_slack route_stats =
     (let min_input = min place_slack cts_slack;
          training_margin = st_std route_stats * 1.0;
          training_based_lower = st_min route_stats - training_margin;
          input_based_lower = min_input - \<bar>min_input\<bar> * 0.5
      in min input_based_lower training_based_lower)"

definition final_upper :: "real \<Rightarrow> real \<Rightarrow> training_stats \<Rightarrow> real" where
  "final_upper place_slack cts_slack route_stats =
     (let max_input = max place_slack cts_slack;
          training_margin = st_std route_stats * 1.0;
          training_based_upper = st_max route_stats + training_margin;
          input_based_upper = max_input + \<bar>max_input\<bar> * 0.2
      in max input_based_upper training_based_upper)"

definition clamped_pred :: "real \<Rightarrow> real \<Rightarrow> real \<Rightarrow> training_stats \<Rightarrow> real" where
  "clamped_pred pred place_slack cts_slack route_stats =
     (let bounded_pred = max pred (final_lower place_slack cts_slack route_stats);
          bounded_pred = min bounded_pred (final_upper place_slack cts_slack route_stats)
      in bounded_pred)"

text \<open>The body of the loop, for one row.\<close>

definition bound_row :: "real \<Rightarrow> real \<Rightarrow> real \<Rightarrow> training_stats \<Rightarrow> real" where
  "bound_row pred place_slack cts_slack route_stats =
     (let min_input = min place_slack cts_slack;
          bounded_pred = clamped_pred pred place_slack cts_slack route_stats
      in if \<bar>bounded_pred - min_input\<bar> > 2.0
         then calculate_realistic_route_slack place_slack cts_slack
         else bounded_pred)"

text \<open>
  The loop runs over \<open>predictions\<close> and reads \<open>place_slacks[i]\<close> and
  \<open>cts_slacks[i]\<close>; reading past the end of either raises \<open>IndexError\<close>.
  \<open>place_stats\<close> and \<open>cts_stats\<close> are parameters the body never reads.
\<close>

fun apply_training_data_bounds ::
  "real list \<Rightarrow> real list \<Rightarrow> real list \<Rightarrow> training_stats \<Rightarrow> training_stats \<Rightarrow> training_stats
     \<Rightarrow> py_error + real list" where
  "apply_training_data_bounds [] place_slacks cts_slacks route_stats place_stats cts_stats = Inr []"
| "apply_training_data_bounds (pred # predictions) [] cts_slacks route_stats place_stats cts_stats =
     Inl IndexError"
| "apply_training_data_bounds (pred # predictions) (p # place_slacks) [] route_stats place_stats cts_stats =
     Inl IndexError"
| "apply_training_data_bounds (pred # predictions) (p # place_slacks) (c # cts_slacks)
       route_stats place_stats cts_stats =
     (case apply_training_data_bounds predictions place_slacks cts_slacks route_stats place_stats cts_stats of
        Inl e \<Rightarrow> Inl e
      | Inr bounded_predictions \<Rightarrow> Inr (bound_row pred p c route_stats # bounded_predictions))"

subsection \<open>\<open>improve_route_predictions\<close> (prediction.py 2072--2175)\<close>

definition critical_path_weight :: "real \<Rightarrow> real \<Rightarrow> real" where
  "critical_path_weight place_slack cts_slack =
     (let slack_difference = \<bar>place_slack - cts_slack\<bar>
      in 0.88 + min (slack_difference * 0.7) 0.07)"

definition expected_route_slack ::
  "real \<Rightarrow> real \<Rightarrow> real \<Rightarrow> real \<Rightarrow> real \<Rightarrow> real \<Rightarrow> real" where
  "expected_route_slack place_mean cts_mean place_std cts_std place_slack cts_slack =
     (let min_input_slack = min place_slack cts_slack;
          avg_input_slack = (place_slack + cts_slack) / 2;
          slack_difference = \<bar>place_slack - cts_slack\<bar>;
          critical_path_weight = critical_path_weight place_slack cts_slack;
          base_route_slack = min_input_slack * critical_path_weight
                             + avg_input_slack * (1 - critical_path_weight);
          optimization_potential =
            (if \<bar>min_input_slack\<bar> > 0.8 then 0.005
             else if \<bar>min_input_slack\<bar> > 0.4 then 0.012
             else if \<bar>min_input_slack\<bar> > 0.1 then 0.025
             else 0.035);
          optimization_factor = optimization_potential * (slack_difference / (\<bar>avg_input_slack\<bar> + 0.1));
          optimization_factor = min optimization_factor 0.04;
          place_z_score = (place_slack - place_mean) / (place_std + 0.00000001);
          cts_z_score = (cts_slack - cts_mean) / (cts_std + 0.00000001);
          correlation_factor = 0.003 * (place_z_score + cts_z_score) / 2
      in base_route_slack + optimization_factor + correlation_factor)"

definition correction_weight :: "real \<Rightarrow> real" where
  "correction_weight relative_error =
     (if relative_error < 0.01 then 0.05
      else if relative_error < 0.03 then 0.15
      else if relative_error < 0.06 then 0.35
      else if relative_error < 0.12 then 0.60
      else if relative_error < 0.25 then 0.80
      else 0.95)"

definition soft_bounded :: "real \<Rightarrow> real \<Rightarrow> real \<Rightarrow> real" where
  "soft_bounded corrected place_slack cts_slack =
     (let min_input_slack = min place_slack cts_slack;
          max_input_slack = max place_slack cts_slack;
          slack_difference = \<bar>place_slack - cts_slack\<bar>;
          improvement_margin = 0.008 + min (slack_difference * 0.05) 0.025;
          upper_bound = max_input_slack + improvement_margin;
          degradation_margin = 0.015 + min (\<bar>min_input_slack\<bar> * 0.08) 0.035;
          lower_bound = min_input_slack - degradation_margin
      in if corrected > upper_bound then
           (let overshoot = corrected - upper_bound in upper_bound + overshoot * 0.1)
         else if corrected < lower_bound then
           (let undershoot = lower_bound - corrected in lower_bound - undershoot * 0.1)
         else corrected)"

text \<open>One pass of the loop body; the four statistics are computed once, before the loop.\<close>

definition improve_row ::
  "real \<Rightarrow> real \<Rightarrow> real \<Rightarrow> real \<Rightarrow> real \<Rightarrow> real \<Rightarrow> real \<Rightarrow> real" where
  "improve_row place_mean cts_mean place_std cts_std raw_pred place_slack cts_slack =
     (let min_input_slack = min place_slack cts_slack;
          max_input_slack = max place_slack cts_slack;
          expected_route_slack =
            expected_route_slack place_mean cts_mean place_std cts_std place_slack cts_slack;
          prediction_error = \<bar>raw_pred - expected_route_slack\<bar>;
          relative_error = prediction_error / (\<bar>expected_route_slack\<bar> + 0.00000001);
          correction_weight = correction_weight relative_error;
          corrected = raw_pred * (1 - correction_weight) + expected_route_slack * correction_weight;
          corrected = soft_bounded corrected place_slack cts_slack;
          corrected = max corrected (min_input_slack - 0.1);
          corrected = min corrected (max_input_slack + 0.05)
      in corrected)"

fun improve_loop ::
  "real \<Rightarrow> real \<Rightarrow> real \<Rightarrow> real \<Rightarrow> real list \<Rightarrow> real list \<Rightarrow> real list \<Rightarrow> py_error + real list" where
  "improve_loop pm cm ps cs [] place_slacks cts_slacks = Inr []"
| "improve_loop pm cm ps cs (raw_pred # raws) [] cts_slacks = Inl IndexError"
| "improve_loop pm cm ps cs (raw_pred # raws) (p # place_slacks) [] = Inl IndexError"
| "improve_loop pm cm ps cs (raw_pred # raws) (p # place_slacks) (c # cts_slacks) =
     (case improve_loop pm cm ps cs raws place_slacks cts_slacks of
        Inl e \<Rightarrow> Inl e
      | Inr improved_predictions \<Rightarrow> Inr (improve_row pm cm ps cs raw_pred p c # improved_predictions))"

definition improve_route_predictions ::
  "real list \<Rightarrow> real list \<Rightarrow> real list \<Rightarrow> py_error + real list" where
  "improve_route_predictions raw_predictions place_slacks cts_slacks =
     (let place_mean = np_mean place_slacks;
          cts_mean = np_mean cts_slacks;
          place_std = np_std place_slacks;
          cts_std = np_std cts_slacks
      in improve_loop place_mean cts_mean place_std cts_std raw_predictions place_slacks cts_slacks)"

subsection \<open>\<open>calculate_synthetic_route_slack\<close> (prediction.py 2317--2430)\<close>

text \<open>
  The function is split at its layers: the tier chain, the capped optimization term, the
  correlation term, the timing signature, and the soft and absolute bounds.
  The timing signature is Python's \<open>hash\<close> of the two slacks printed with eight decimals.
  String hashing is seeded per process, so the hash is a parameter \<open>hsh\<close> of the model.
\<close>

definition synthetic_tier :: "real \<Rightarrow> real \<times> real" where
  "synthetic_tier timing_pressure =
     (if timing_pressure > 1.0 then (0.95, 0.002)
      else if timing_pressure > 0.6 then (0.92, 0.005)
      else if timing_pressure > 0.3 then (0.88, 0.012)
      else if timing_pressure > 0.1 then (0.84, 0.022)
      else (0.80, 0.035))"

definition synthetic_optimization_factor :: "real \<Rightarrow> real \<Rightarrow> real" where
  "synthetic_optimization_factor place_slack cts_slack =
     (let min_slack = min place_slack cts_slack;
          avg_slack = (place_slack + cts_slack) / 2;
          slack_difference = \<bar>place_slack - cts_slack\<bar>;
          slack_magnitude = \<bar>avg_slack\<bar>;
          timing_pressure = \<bar>min_slack\<bar>;
          flexibility_factor = snd (synthetic_tier timing_pressure);
          optimization_base = flexibility_factor * (slack_difference / (slack_magnitude + 0.05));
          optimization_multiplier =
            (if slack_difference > 0.2 then 1.4
             else if slack_difference > 0.1 then 1.2
             else if slack_difference > 0.05 then 1.0
             else 0.7);
          optimization_factor = optimization_base * optimization_multiplier
      in min optimization_factor 0.045)"

definition correlation_adjustment :: "real \<Rightarrow> real \<Rightarrow> real" where
  "correlation_adjustment place_slack cts_slack =
     (let avg_slack = (place_slack + cts_slack) / 2;
          slack_magnitude = \<bar>avg_slack\<bar>;
          timing_correlation = (place_slack * cts_slack) / (slack_magnitude + 0.00000001)
      in 0.002 * tanh timing_correlation)"

definition signature_factor :: "(real \<Rightarrow> real \<Rightarrow> int) \<Rightarrow> real \<Rightarrow> real \<Rightarrow> real" where
  "signature_factor hsh place_slack cts_slack =
     (let timing_signature = \<bar>hsh place_slack cts_slack\<bar> mod 10000
      in real_of_int timing_signature / 10000.0)"

definition synthetic_bounds :: "real \<Rightarrow> real \<Rightarrow> real \<Rightarrow> real" where
  "synthetic_bounds route_slack place_slack cts_slack =
     (let min_slack = min place_slack cts_slack;
          max_slack = max place_slack cts_slack;
          slack_difference = \<bar>place_slack - cts_slack\<bar>;
          timing_pressure = \<bar>min_slack\<bar>;
          improvement_margin =
            (if slack_difference > 0.15 then 0.020
             else if slack_difference > 0.08 then 0.015
             else 0.008);
          upper_bound = max_slack + improvement_margin;
          degradation_margin =
            (if timing_pressure > 0.5 then 0.035
             else if timing_pressure > 0.2 then 0.025
             else 0.015);
          lower_bound = min_slack - degradation_margin;
          route_slack =
            (if route_slack > upper_bound then
               (let excess = route_slack - upper_bound in upper_bound + excess * 0.15)
             else if route_slack < lower_bound then
               (let deficit = lower_bound - route_slack in lower_bound - deficit * 0.15)
             else route_slack);
          absolute_upper = max_slack + 0.06;
          absolute_lower = min_slack - 0.08;
          route_slack = max route_slack absolute_lower;
          route_slack = min route_slack absolute_upper
      in route_slack)"

definition calculate_synthetic_route_slack :: "(real \<Rightarrow> real \<Rightarrow> int) \<Rightarrow> real \<Rightarrow> real \<Rightarrow> real" where
  "calculate_synthetic_route_slack hsh place_slack cts_slack =
     (let min_slack = min place_slack cts_slack;
          avg_slack = (place_slack + cts_slack) / 2;
          timing_pressure = \<bar>min_slack\<bar>;
          critical_weight = fst (synthetic_tier timing_pressure);
          base_route_slack = min_slack * critical_weight + avg_slack * (1 - critical_weight);
          optimization_factor = synthetic_optimization_factor place_slack cts_slack;
          correlation_adjustment = correlation_adjustment place_slack cts_slack;
          signature_factor = signature_factor hsh place_slack cts_slack;
          signature_optimization = optimization_factor * (0.6 + 0.4 * signature_factor);
          route_slack = base_route_slack + signature_optimization + correlation_adjustment
      in synthetic_bounds route_slack place_slack cts_slack)"

subsection \<open>\<open>ensemble_route_predictions\<close> (prediction.py 2177--2260)\<close>

fun synthetic_loop :: "(real \<Rightarrow> real \<Rightarrow> int) \<Rightarrow> real list \<Rightarrow> real list \<Rightarrow> py_error + real list" where
  "synthetic_loop hsh [] cts_slacks = Inr []"
| "synthetic_loop hsh (p # place_slacks) [] = Inl IndexError"
| "synthetic_loop hsh (p # place_slacks) (c # cts_slacks) =
     (case synthetic_loop hsh place_slacks cts_slacks of
        Inl e \<Rightarrow> Inl e
      | Inr synthetic_predictions \<Rightarrow>
          Inr (calculate_synthetic_route_slack hsh p c # synthetic_predictions))"

definition statistical_pred :: "real \<Rightarrow> real \<Rightarrow> real" where
  "statistical_pred place_slack cts_slack =
     (let min_slack = min place_slack cts_slack;
          max_slack = max place_slack cts_slack;
          slack_range = max_slack - min_slack;
          stat_pred =
            (if \<bar>min_slack\<bar> > 0.5 then min_slack * 0.94 + max_slack * 0.06
             else if \<bar>min_slack\<bar> > 0.2 then min_slack * 0.90 + max_slack * 0.10
             else min_slack * 0.85 + max_slack * 0.15);
          optimization = min (slack_range * 0.08) 0.03
      in stat_pred + optimization)"

fun statistical_loop :: "real list \<Rightarrow> real list \<Rightarrow> real list \<Rightarrow> py_error + real list" where
  "statistical_loop [] place_slacks cts_slacks = Inr []"
| "statistical_loop (raw_pred # raws) [] cts_slacks = Inl IndexError"
| "statistical_loop (raw_pred # raws) (p # place_slacks) [] = Inl IndexError"
| "statistical_loop (raw_pred # raws) (p # place_slacks) (c # cts_slacks) =
     (case statistical_loop raws place_slacks cts_slacks of
        Inl e \<Rightarrow> Inl e
      | Inr statistical_predictions \<Rightarrow> Inr (statistical_pred p c # statistical_predictions))"

definition ensemble_weights :: "real \<Rightarrow> real list" where
  "ensemble_weights pred_std =
     (if pred_std < 0.01 then [0.3, 0.3, 0.25, 0.15]
      else if pred_std < 0.03 then [0.25, 0.35, 0.30, 0.10]
      else if pred_std < 0.06 then [0.15, 0.25, 0.40, 0.20]
      else [0.10, 0.20, 0.55, 0.15])"

definition ensemble_pred :: "real \<Rightarrow> real \<Rightarrow> real \<Rightarrow> real \<Rightarrow> real" where
  "ensemble_pred raw_pred physics_pred synthetic_pred stat_pred =
     (let predictions = [raw_pred, physics_pred, synthetic_pred, stat_pred];
          pred_std = np_std predictions;
          weights = ensemble_weights pred_std
      in raw_pred * weights ! 0 + physics_pred * weights ! 1
         + synthetic_pred * weights ! 2 + stat_pred * weights ! 3)"

fun ensemble_loop ::
  "real list \<Rightarrow> real list \<Rightarrow> real list \<Rightarrow> real list \<Rightarrow> py_error + real list" where
  "ensemble_loop [] physics synthetic statistical = Inr []"
| "ensemble_loop (raw_pred # raws) (physics_pred # physics) (synthetic_pred # synthetic)
       (stat_pred # statistical) =
     (case ensemble_loop raws physics synthetic statistical of
        Inl e \<Rightarrow> Inl e
      | Inr ensemble_predictions \<Rightarrow>
          Inr (ensemble_pred raw_pred physics_pred synthetic_pred stat_pred # ensemble_predictions))"
| "ensemble_loop (raw_pred # raws) physics synthetic statistical = Inl IndexError"

definition ensemble_route_predictions ::
  "(real \<Rightarrow> real \<Rightarrow> int) \<Rightarrow> real list \<Rightarrow> real list \<Rightarrow> real list \<Rightarrow> py_error + real list" where
  "ensemble_route_predictions hsh raw_predictions place_slacks cts_slacks =
     (case improve_route_predictions raw_predictions place_slacks cts_slacks of
        Inl e \<Rightarrow> Inl e
      | Inr physics_predictions \<Rightarrow>
     (case synthetic_loop hsh place_slacks cts_slacks of
        Inl e \<Rightarrow> Inl e
      | Inr synthetic_predictions \<Rightarrow>
     (case statistical_loop raw_predictions place_slacks cts_slacks of
        Inl e \<Rightarrow> Inl e
      | Inr statistical_predictions \<Rightarrow>
          ensemble_loop raw_predictions physics_predictions synthetic_predictions
            statistical_predictions)))"



subsection \<open>The correction on the predict path (prediction.py 2978--3023)\<close>

text \<open>
  \<open>np.min\<close> and \<open>np.max\<close> raise \<open>ValueError\<close> on an empty array.
\<close>

definition np_min :: "real list \<Rightarrow> py_error + real" where
  "np_min xs = (case xs of [] \<Rightarrow> Inl ValueError | x # ys \<Rightarrow> Inr (fold min ys x))"

definition np_max :: "real list \<Rightarrow> py_error + real" where
  "np_max xs = (case xs of [] \<Rightarrow> Inl ValueError | x # ys \<Rightarrow> Inr (fold max ys x))"

text \<open>
  A row of \<open>merged_data\<close> carries \<open>slack_place\<close> and \<open>slack_cts\<close>. A raw prediction
  outside the expected range by more than 1.0 is replaced by the realistic estimate of its
  row; \<open>merged_data.iloc[i]\<close> raises \<open>IndexError\<close> past the last row.
\<close>

definition is_garbage :: "real \<Rightarrow> real \<Rightarrow> real \<Rightarrow> bool" where
  "is_garbage expected_min expected_max raw_pred =
     (raw_pred < expected_min - 1.0 \<or> raw_pred > expected_max + 1.0)"

fun replace_garbage :: "real \<Rightarrow> real \<Rightarrow> real list \<Rightarrow> (real \<times> real) list \<Rightarrow> py_error + real list" where
  "replace_garbage expected_min expected_max [] merged_data = Inr []"
| "replace_garbage expected_min expected_max (raw_pred # raws) merged_data =
     (if is_garbage expected_min expected_max raw_pred then
        (case merged_data of
           [] \<Rightarrow> Inl IndexError
         | (place_slack, cts_slack) # rows \<Rightarrow>
             (case replace_garbage expected_min expected_max raws rows of
                Inl e \<Rightarrow> Inl e
              | Inr cleaned \<Rightarrow> Inr (calculate_realistic_route_slack place_slack cts_slack # cleaned)))
      else
        (case replace_garbage expected_min expected_max raws (tl merged_data) of
           Inl e \<Rightarrow> Inl e
         | Inr cleaned \<Rightarrow> Inr (raw_pred # cleaned)))"

definition garbage_cleanup :: "real list \<Rightarrow> (real \<times> real) list \<Rightarrow> py_error + real list" where
  "garbage_cleanup raw_route_predictions merged_data =
     (case np_min (map fst merged_data) of Inl e \<Rightarrow> Inl e | Inr min_place \<Rightarrow>
      case np_min (map snd merged_data) of Inl e \<Rightarrow> Inl e | Inr min_cts \<Rightarrow>
      case np_max (map fst merged_data) of Inl e \<Rightarrow> Inl e | Inr max_place \<Rightarrow>
      case np_max (map snd merged_data) of Inl e \<Rightarrow> Inl e | Inr max_cts \<Rightarrow>
        (let expected_min = min min_place min_cts - 0.1;
             expected_max = max max_place max_cts + 0.1
         in replace_garbage expected_min expected_max raw_route_predictions merged_data))"

text \<open>
  The route model carries \<open>_training_route_stats\<close>, \<open>_training_place_stats\<close> and
  \<open>_training_cts_stats\<close> once it has been trained in this process; \<open>hasattr\<close> is the
  \<open>option\<close>.
\<close>

definition predict_route_predictions ::
  "real list \<Rightarrow> (real \<times> real) list \<Rightarrow> (training_stats \<times> training_stats \<times> training_stats) option
     \<Rightarrow> py_error + real list" where
  "predict_route_predictions raw_route_predictions merged_data training =
     (case garbage_cleanup raw_route_predictions merged_data of
        Inl e \<Rightarrow> Inl e
      | Inr cleaned \<Rightarrow>
     (case improve_route_predictions cleaned (map fst merged_data) (map snd merged_data) of
        Inl e \<Rightarrow> Inl e
      | Inr route_predictions \<Rightarrow>
     (case training of
        None \<Rightarrow> Inr route_predictions
      | Some (route_stats, place_stats, cts_stats) \<Rightarrow>
          apply_training_data_bounds route_predictions (map fst merged_data) (map snd merged_data)
            route_stats place_stats cts_stats)))"


text \<open>
  The correction in the words of the specification, to compare the endpoint with:
  \<open>improve_route_predictions\<close> on the raw regressor output, followed by
  \<open>apply_training_data_bounds\<close>.
\<close>

definition improve_then_bounds ::
  "real list \<Rightarrow> (real \<times> real) list \<Rightarrow> training_stats \<times> training_stats \<times> training_stats
     \<Rightarrow> py_error + real list" where
  "improve_then_bounds raw_route_predictions merged_data training =
     (case improve_route_predictions raw_route_predictions (map fst merged_data) (map snd merged_data) of
        Inl e \<Rightarrow> Inl e
      | Inr route_predictions \<Rightarrow>
          (case training of (route_stats, place_stats, cts_stats) \<Rightarrow>
             apply_training_data_bounds route_predictions (map fst merged_data) (map snd merged_data)
               route_stats place_stats cts_stats))"
section \<open>Alignment Engine\<close>

text \<open>
  An endpoint cell is a Python value: a string, \<open>None\<close>, a float NaN, or any other
  object, kept by its \<open>str()\<close> rendering. Strings are ASCII: \<open>lower\<close> folds the
  letters A--Z and \<open>strip\<close> removes the ASCII whitespace characters.
\<close>

datatype py_value = Str string | PyNone | NaN | Other string

fun str_of :: "py_value \<Rightarrow> string" where
  "str_of (Str s) = s"
| "str_of PyNone = ''None''"
| "str_of NaN = ''nan''"
| "str_of (Other s) = s"

fun py_split :: "char \<Rightarrow> string \<Rightarrow> string list" where
  "py_split sep [] = [[]]"
| "py_split sep (c # cs) =
     (if c = sep then [] # py_split sep cs
      else (case py_split sep cs of [] \<Rightarrow> [[c]] | p # ps \<Rightarrow> (c # p) # ps))"

definition is_space :: "char \<Rightarrow> bool" where
  "is_space c = (c \<in> set [CHR '' '', CHR 0x09, CHR 0x0A, CHR 0x0B, CHR 0x0C, CHR 0x0D,
                            CHR 0x1C, CHR 0x1D, CHR 0x1E, CHR 0x1F])"

definition py_strip :: "string \<Rightarrow> string" where
  "py_strip s = rev (dropWhile is_space (rev (dropWhile is_space s)))"

definition lower_char :: "char \<Rightarrow> char" where
  "lower_char c =
     (case map_of (zip ''ABCDEFGHIJKLMNOPQRSTUVWXYZ'' ''abcdefghijklmnopqrstuvwxyz'') c of
        Some l \<Rightarrow> l
      | None \<Rightarrow> c)"

definition py_lower :: "string \<Rightarrow> string" where
  "py_lower s = map lower_char s"

text \<open>
  The module defines \<open>normalize_endpoint\<close> twice. The first definition
  (prediction.py 182--186, docstring ``Normalize endpoint names for consistent matching'')
  trims and lower-cases. The second (prediction.py 1361--1365) is bound to the name
  when the module has loaded, so it is the one every caller runs; the first is kept here
  as \<open>normalize_endpoint_shadowed\<close>.
\<close>

definition normalize_endpoint_shadowed :: "py_value \<Rightarrow> string" where
  "normalize_endpoint_shadowed endpoint =
     (if endpoint = NaN \<or> endpoint = PyNone then ''''
      else py_lower (py_strip (str_of endpoint)))"

definition normalize_endpoint :: "py_value \<Rightarrow> string" where
  "normalize_endpoint endpoint =
     (case endpoint of
        Str s \<Rightarrow>
          (let parts = py_split CHR ''/'' s
           in if length parts \<ge> 2
              then parts ! (length parts - 2) @ ''/'' @ parts ! (length parts - 1)
              else s)
      | _ \<Rightarrow> str_of endpoint)"

text \<open>A table row: the value of its \<open>endpoint\<close> column and the rest of the row.\<close>

type_synonym 'a row = "py_value \<times> 'a"

definition normalized_endpoint :: "'a row \<Rightarrow> string" where
  "normalized_endpoint r = normalize_endpoint (fst r)"

text \<open>
  \<open>drop_duplicates(subset=['normalized_endpoint'], keep='first')\<close>: a row is dropped
  when an earlier row of the same frame carries its key.
\<close>

fun drop_duplicates_from :: "('r \<Rightarrow> 'k) \<Rightarrow> 'k list \<Rightarrow> 'r list \<Rightarrow> 'r list" where
  "drop_duplicates_from key seen [] = []"
| "drop_duplicates_from key seen (r # rows) =
     (if key r \<in> set seen then drop_duplicates_from key seen rows
      else r # drop_duplicates_from key (key r # seen) rows)"

definition drop_duplicates_first :: "('r \<Rightarrow> 'k) \<Rightarrow> 'r list \<Rightarrow> 'r list" where
  "drop_duplicates_first key rows = drop_duplicates_from key [] rows"

definition isin :: "string set \<Rightarrow> 'a row list \<Rightarrow> 'a row list" where
  "isin common_endpoints rows = filter (\<lambda>r. normalized_endpoint r \<in> common_endpoints) rows"

text \<open>
  The prediction path (prediction.py 2748--2795): filter each table to the common
  normalized endpoints, drop duplicates, inner-merge on the normalized endpoint.
\<close>

definition predict_dedup :: "string set \<Rightarrow> 'a row list \<Rightarrow> 'a row list" where
  "predict_dedup common_endpoints data =
     drop_duplicates_first normalized_endpoint (isin common_endpoints data)"

definition predict_align :: "'a row list \<Rightarrow> 'b row list \<Rightarrow> py_error + ('a row \<times> 'b row) list" where
  "predict_align place_data cts_data =
     (let common_endpoints =
            set (map normalized_endpoint place_data) \<inter> set (map normalized_endpoint cts_data)
      in if common_endpoints = {} then Inl HTTPException
         else
           (let place_filtered = predict_dedup common_endpoints place_data;
                cts_filtered = predict_dedup common_endpoints cts_data;
                merged_data = concat (map (\<lambda>p. map (\<lambda>c. (p, c))
                    (filter (\<lambda>c. normalized_endpoint c = normalized_endpoint p) cts_filtered))
                    place_filtered)
            in if merged_data = [] then Inl HTTPException else Inr merged_data))"

text \<open>
  The training path (prediction.py 4204--4239): filter, sort by normalized endpoint,
  drop duplicates. \<open>sort_values\<close> is called with pandas' default \<open>kind='quicksort'\<close>,
  which does not promise to keep rows of equal key in their order. The sort is the
  parameter \<open>sort_values\<close> of the model; the order pandas computes for a string column
  is \<open>quicksort_values\<close> below.
\<close>

definition train_dedup ::
  "((('a row) \<Rightarrow> string) \<Rightarrow> 'a row list \<Rightarrow> 'a row list) \<Rightarrow> string set \<Rightarrow> 'a row list \<Rightarrow> 'a row list" where
  "train_dedup sort_values common_endpoints data =
     drop_duplicates_first normalized_endpoint
       (sort_values normalized_endpoint (isin common_endpoints data))"

definition train_align ::
  "((('a row) \<Rightarrow> string) \<Rightarrow> 'a row list \<Rightarrow> 'a row list) \<Rightarrow>
   'a row list \<Rightarrow> 'a row list \<Rightarrow> 'a row list \<Rightarrow> py_error + ('a row list \<times> 'a row list \<times> 'a row list)" where
  "train_align sort_values place_data cts_data route_data =
     (let common_endpoints =
            set (map normalized_endpoint place_data) \<inter> set (map normalized_endpoint cts_data)
              \<inter> set (map normalized_endpoint route_data)
      in if common_endpoints = {} then Inl ValueError
         else
           (let place_data = train_dedup sort_values common_endpoints place_data;
                cts_data = train_dedup sort_values common_endpoints cts_data;
                route_data = train_dedup sort_values common_endpoints route_data
            in if length place_data \<noteq> length cts_data \<or> length cts_data \<noteq> length route_data
               then Inl ValueError
               else Inr (place_data, cts_data, route_data)))"

subsection \<open>The order \<open>sort_values\<close> computes\<close>

text \<open>
  \<open>sort_values(by='normalized_endpoint')\<close> leaves the sort kind at its default,
  \<open>quicksort\<close>. For a column of strings pandas then orders the rows by numpy's argsort of
  the keys: the index array \<open>tosort\<close> starts as \<open>0, 1, ..., n - 1\<close> and is sorted in place
  by numpy's \<open>npy_aquicksort\<close>, comparing the keys the indices point to, and row \<open>i\<close> of
  the sorted table is row \<open>tosort[i]\<close> of the table. That routine is library code, not part
  of the repository; the definitions below follow it statement by statement. It is an
  introsort: a range of more than 17 entries (\<open>pr - pl > 16\<close>) is partitioned around the
  median of its first, middle and last key, the larger part is pushed on a stack, and a
  shorter range is sorted by insertion. A range reached with the depth counter below 0
  is handed to heapsort, which is not modelled: the result is \<open>None\<close> there, as it is when
  a loop would run longer than the routine can.
\<close>

definition intp_swap :: "nat list \<Rightarrow> nat \<Rightarrow> nat \<Rightarrow> nat list" where
  "intp_swap tosort a b = tosort[a := tosort ! b, b := tosort ! a]"

text \<open>\<open>npy_get_msb\<close>: the number of times the argument can be halved before it is 0, less one.\<close>

fun npy_get_msb :: "nat \<Rightarrow> nat" where
  "npy_get_msb n = (if n < 2 then 0 else Suc (npy_get_msb (n div 2)))"

declare npy_get_msb.simps [simp del]

text \<open>The three conditional swaps that put the median key at \<open>pm\<close>.\<close>

definition median_of_three :: "'k::linorder list \<Rightarrow> nat list \<Rightarrow> nat \<Rightarrow> nat \<Rightarrow> nat \<Rightarrow> nat list" where
  "median_of_three v tosort pl pm pr =
     (let tosort = (if v ! (tosort ! pm) < v ! (tosort ! pl) then intp_swap tosort pm pl else tosort);
          tosort = (if v ! (tosort ! pr) < v ! (tosort ! pm) then intp_swap tosort pr pm else tosort);
          tosort = (if v ! (tosort ! pm) < v ! (tosort ! pl) then intp_swap tosort pm pl else tosort)
      in tosort)"

text \<open>
  \<open>do ++pi; while (v[*pi] < vp)\<close> and \<open>do --pj; while (vp < v[*pj])\<close>. The pivot at
  \<open>pr - 1\<close> stops the first scan and the key at \<open>pl\<close> the second; the first argument of
  \<open>scan_up\<close> bounds its steps.
\<close>

fun scan_up :: "nat \<Rightarrow> 'k::linorder list \<Rightarrow> 'k \<Rightarrow> nat list \<Rightarrow> nat \<Rightarrow> nat option" where
  "scan_up 0 v vp tosort p_i = None"
| "scan_up (Suc n) v vp tosort p_i =
     (if v ! (tosort ! Suc p_i) < vp then scan_up n v vp tosort (Suc p_i) else Some (Suc p_i))"

fun scan_down :: "'k::linorder list \<Rightarrow> 'k \<Rightarrow> nat list \<Rightarrow> nat \<Rightarrow> nat option" where
  "scan_down v vp tosort 0 = None"
| "scan_down v vp tosort (Suc p_j) =
     (if vp < v ! (tosort ! p_j) then scan_down v vp tosort p_j else Some p_j)"

text \<open>The \<open>for (;;)\<close> loop of the partition; it returns the index array and \<open>pi\<close>
  (written \<open>p_i\<close>, as \<open>pi\<close> is a number here).\<close>

fun partition_loop ::
  "nat \<Rightarrow> 'k::linorder list \<Rightarrow> 'k \<Rightarrow> nat list \<Rightarrow> nat \<Rightarrow> nat \<Rightarrow> (nat list \<times> nat) option" where
  "partition_loop 0 v vp tosort p_i p_j = None"
| "partition_loop (Suc n) v vp tosort p_i p_j =
     (case scan_up (length tosort) v vp tosort p_i of
        None \<Rightarrow> None
      | Some p_i \<Rightarrow>
          (case scan_down v vp tosort p_j of
             None \<Rightarrow> None
           | Some p_j \<Rightarrow>
               if p_i \<ge> p_j then Some (tosort, p_i)
               else partition_loop n v vp (intp_swap tosort p_i p_j) p_i p_j))"

definition quicksort_partition ::
  "'k::linorder list \<Rightarrow> nat list \<Rightarrow> nat \<Rightarrow> nat \<Rightarrow> (nat list \<times> nat) option" where
  "quicksort_partition v tosort pl pr =
     (let pm = pl + (pr - pl) div 2;
          tosort = median_of_three v tosort pl pm pr;
          vp = v ! (tosort ! pm);
          p_i = pl;
          p_j = pr - 1;
          tosort = intp_swap tosort pm p_j
      in case partition_loop (length tosort) v vp tosort p_i p_j of
           None \<Rightarrow> None
         | Some (tosort, p_i) \<Rightarrow> Some (intp_swap tosort p_i (pr - 1), p_i))"

text \<open>
  The insertion sort of the range \<open>pl..pr\<close>: the inner \<open>while\<close> shifts the entries with a
  greater key one place up, and the entry is stored where the loop stops.
\<close>

fun insertion_shift :: "'k::linorder list \<Rightarrow> nat \<Rightarrow> nat \<Rightarrow> 'k \<Rightarrow> nat list \<Rightarrow> nat \<Rightarrow> nat list" where
  "insertion_shift v pl vi vp tosort 0 = tosort[0 := vi]"
| "insertion_shift v pl vi vp tosort (Suc pk) =
     (if Suc pk > pl \<and> vp < v ! (tosort ! pk)
      then insertion_shift v pl vi vp (tosort[Suc pk := tosort ! pk]) pk
      else tosort[Suc pk := vi])"

definition insertion_sort_range :: "'k::linorder list \<Rightarrow> nat list \<Rightarrow> nat \<Rightarrow> nat \<Rightarrow> nat list" where
  "insertion_sort_range v tosort pl pr =
     foldl (\<lambda>tosort p_i. insertion_shift v pl (tosort ! p_i) (v ! (tosort ! p_i)) tosort p_i)
       tosort [pl + 1 ..< pr + 1]"

text \<open>
  The outer loop. \<open>at_head\<close> tells the head of \<open>while (1)\<close>, where the depth counter is
  tested, from the head of the inner \<open>while\<close>; the stack holds the ranges still to sort,
  each with its depth counter. The indices are natural numbers: for an empty array
  \<open>pr\<close> is 0 instead of -1, and both give an empty insertion sort.
\<close>

fun aquicksort_loop ::
  "nat \<Rightarrow> bool \<Rightarrow> 'k::linorder list \<Rightarrow> nat list \<Rightarrow> nat \<Rightarrow> nat \<Rightarrow> int \<Rightarrow> (nat \<times> nat \<times> int) list
     \<Rightarrow> nat list option" where
  "aquicksort_loop 0 at_head v tosort pl pr cdepth stack = None"
| "aquicksort_loop (Suc n) at_head v tosort pl pr cdepth stack =
     (if at_head \<and> cdepth < 0 then None
      else if pr - pl > 16 then
        (case quicksort_partition v tosort pl pr of
           None \<Rightarrow> None
         | Some (tosort, p_i) \<Rightarrow>
             if p_i - pl < pr - p_i
             then aquicksort_loop n False v tosort pl (p_i - 1) (cdepth - 1)
                    ((p_i + 1, pr, cdepth - 1) # stack)
             else aquicksort_loop n False v tosort (p_i + 1) pr (cdepth - 1)
                    ((pl, p_i - 1, cdepth - 1) # stack))
      else
        (let tosort = insertion_sort_range v tosort pl pr
         in case stack of
              [] \<Rightarrow> Some tosort
            | (pl, pr, cdepth) # stack \<Rightarrow> aquicksort_loop n True v tosort pl pr cdepth stack))"

definition npy_aquicksort :: "'k::linorder list \<Rightarrow> nat list option" where
  "npy_aquicksort v =
     (let num = length v
      in aquicksort_loop (2 * num + 1) True v [0..<num] 0 (num - 1) (int (npy_get_msb num) * 2) [])"


subsection \<open>Notions for the proofs about the sort\<close>

text \<open>
  Insertion from the right end of a list: \<open>x\<close> goes behind the last entry whose key is not
  greater than its own. \<open>insertion_order\<close> inserts the entries of a list one by one.
\<close>

definition insert_right :: "('a \<Rightarrow> 'k::linorder) \<Rightarrow> 'a \<Rightarrow> 'a list \<Rightarrow> 'a list" where
  "insert_right f x ys =
     rev (dropWhile (\<lambda>y. f x < f y) (rev ys)) @ x # rev (takeWhile (\<lambda>y. f x < f y) (rev ys))"


section \<open>Schema Inspector\<close>

datatype dtype = Float64 | Int64 | Float32 | Int32 | Int16 | Int8 | Object | OtherDtype

text \<open>
  A cell of a fetched table, as \<open>pd.to_numeric(..., errors='coerce')\<close> sees it: a number,
  a text, or a missing value. Whether a text parses as a number is pandas' business: the
  parser is the parameter \<open>parses\<close>.
\<close>

datatype cell = Number | Text string | Missing

record raw_column =
  col_name :: string
  col_dtype :: dtype
  col_cells :: "cell list"

record raw_frame =
  nrows :: nat
  columns :: "raw_column list"

definition notna_after_coerce :: "(string \<Rightarrow> bool) \<Rightarrow> cell \<Rightarrow> bool" where
  "notna_after_coerce parses c = (case c of Number \<Rightarrow> True | Text s \<Rightarrow> parses s | Missing \<Rightarrow> False)"

definition numeric_count :: "(string \<Rightarrow> bool) \<Rightarrow> raw_column \<Rightarrow> nat" where
  "numeric_count parses col = length (filter (notna_after_coerce parses) (col_cells col))"

text \<open>
  \<open>detect_feature_columns\<close> (prediction.py 1033--1066), the later of the two
  definitions of that name. \<open>qualifies\<close> is the body of its loop for one column; the
  column labels of a fetched table are distinct, so \<open>df[col]\<close> is a single column and the
  \<open>except\<close> branch is not reached.
\<close>

definition qualifies :: "(string \<Rightarrow> bool) \<Rightarrow> raw_frame \<Rightarrow> raw_column \<Rightarrow> bool" where
  "qualifies parses df col =
     (if col_dtype col \<in> {Float64, Int64, Float32, Int32, Int16, Int8} then
        real (numeric_count parses col) > real (nrows df) * 0.8
      else if col_dtype col = Object then
        real (numeric_count parses col) > real (nrows df) * 0.8
      else False)"

definition detect_feature_columns :: "(string \<Rightarrow> bool) \<Rightarrow> raw_frame \<Rightarrow> string option \<Rightarrow> string list" where
  "detect_feature_columns parses df target_col =
     (let available_cols = map col_name (columns df);
          exclude_cols =
            (case target_col of
               None \<Rightarrow> {}
             | Some t \<Rightarrow> if t \<noteq> [] \<and> t \<in> set available_cols then {t} else {})
      in map col_name
           (filter (\<lambda>col. col_name col \<notin> exclude_cols \<and> qualifies parses df col) (columns df)))"



section \<open>Feature Engineer and Feature Reconstructor\<close>

subsection \<open>Column values\<close>

text \<open>
  A cell of a numeric column is a float64: a finite number, an infinity or NaN. Finite
  arithmetic is exact (no rounding, no overflow to infinity); the special values follow
  IEEE 754, the sign of a zero apart.
\<close>

datatype fval = Fin real | PInf | NInf | FNaN

fun f_abs :: "fval \<Rightarrow> fval" where
  "f_abs (Fin x) = Fin \<bar>x\<bar>"
| "f_abs PInf = PInf"
| "f_abs NInf = PInf"
| "f_abs FNaN = FNaN"

fun f_neg :: "fval \<Rightarrow> fval" where
  "f_neg (Fin x) = Fin (- x)"
| "f_neg PInf = NInf"
| "f_neg NInf = PInf"
| "f_neg FNaN = FNaN"

fun f_add :: "fval \<Rightarrow> fval \<Rightarrow> fval" where
  "f_add (Fin x) (Fin y) = Fin (x + y)"
| "f_add FNaN y = FNaN"
| "f_add x FNaN = FNaN"
| "f_add PInf NInf = FNaN"
| "f_add NInf PInf = FNaN"
| "f_add PInf y = PInf"
| "f_add NInf y = NInf"
| "f_add (Fin x) y = y"

fun f_sign :: "fval \<Rightarrow> int" where
  "f_sign (Fin x) = (if x > 0 then 1 else if x < 0 then -1 else 0)"
| "f_sign PInf = 1"
| "f_sign NInf = -1"
| "f_sign FNaN = 0"

definition signed_inf :: "int \<Rightarrow> fval" where
  "signed_inf s = (if s > 0 then PInf else if s < 0 then NInf else FNaN)"

fun f_mul :: "fval \<Rightarrow> fval \<Rightarrow> fval" where
  "f_mul (Fin x) (Fin y) = Fin (x * y)"
| "f_mul FNaN y = FNaN"
| "f_mul x FNaN = FNaN"
| "f_mul x y = signed_inf (f_sign x * f_sign y)"

fun f_div :: "fval \<Rightarrow> fval \<Rightarrow> fval" where
  "f_div (Fin x) (Fin y) = (if y = 0 then signed_inf (f_sign (Fin x)) else Fin (x / y))"
| "f_div FNaN y = FNaN"
| "f_div x FNaN = FNaN"
| "f_div (Fin x) y = Fin 0"
| "f_div x (Fin y) = signed_inf (f_sign x * (if y < 0 then -1 else 1))"
| "f_div x y = FNaN"

fun f_positive :: "fval \<Rightarrow> bool" where
  "f_positive (Fin x) = (x > 0)"
| "f_positive PInf = True"
| "f_positive NInf = False"
| "f_positive FNaN = False"

fun f_log :: "fval \<Rightarrow> fval" where
  "f_log (Fin x) = (if x > 0 then Fin (ln x) else if x = 0 then NInf else FNaN)"
| "f_log PInf = PInf"
| "f_log NInf = FNaN"
| "f_log FNaN = FNaN"

definition eps :: fval where
  "eps = Fin 0.00000001"

subsection \<open>Frames\<close>

text \<open>
  A raw table has a row count and labelled columns, each with its dtype. The columns
  modelled here hold numbers; the labels of a table are distinct, and a lookup finds the
  column of a label. The engineered table has the same shape without the dtypes; its
  columns are kept in insertion order.
\<close>

record data_frame =
  df_len :: nat
  df_columns :: "(string \<times> dtype \<times> fval list) list"

record frame =
  index_len :: nat
  fcols :: "(string \<times> fval list) list"

definition df_names :: "data_frame \<Rightarrow> string list" where
  "df_names df = map fst (df_columns df)"

definition names :: "frame \<Rightarrow> string list" where
  "names e = map fst (fcols e)"

text \<open>\<open>engineered_df[col]\<close>: \<open>None\<close> stands for the \<open>KeyError\<close> of a missing label.\<close>

definition get_col :: "frame \<Rightarrow> string \<Rightarrow> fval list option" where
  "get_col e col = map_of (fcols e) col"

text \<open>\<open>engineered_df[col] = cells\<close>: an existing column is replaced in place, a new one is appended.\<close>

definition set_col :: "frame \<Rightarrow> string \<Rightarrow> fval list \<Rightarrow> frame" where
  "set_col e col cells =
     (if col \<in> set (names e)
      then e\<lparr>fcols := map (\<lambda>(n, v). if n = col then (n, cells) else (n, v)) (fcols e)\<rparr>
      else e\<lparr>fcols := fcols e @ [(col, cells)]\<rparr>)"

text \<open>\<open>engineered_df[col] = scalar\<close> fills the rows of the index.\<close>

definition set_scalar :: "frame \<Rightarrow> string \<Rightarrow> fval \<Rightarrow> frame" where
  "set_scalar e col v = set_col e col (replicate (index_len e) v)"

text \<open>\<open>df[base_columns]\<close>, for labels that are all present.\<close>

definition select_columns :: "data_frame \<Rightarrow> string list \<Rightarrow> frame" where
  "select_columns df base_columns =
     \<lparr>index_len = df_len df,
      fcols = map (\<lambda>c. (c, case map_of (df_columns df) c of Some (dt, cells) \<Rightarrow> cells | None \<Rightarrow> []))
                base_columns\<rparr>"


subsection \<open>Column operations\<close>

definition ratio_cells :: "fval list \<Rightarrow> fval list \<Rightarrow> fval list" where
  "ratio_cells xs ys = map2 (\<lambda>x y. f_div x (f_add (f_abs y) eps)) xs ys"

definition interaction_cells :: "fval list \<Rightarrow> fval list \<Rightarrow> fval list" where
  "interaction_cells xs ys = map2 f_mul xs ys"

definition squared_cells :: "fval list \<Rightarrow> fval list" where
  "squared_cells xs = map (\<lambda>x. f_mul x x) xs"

text \<open>Zero everywhere, and \<open>np.log(x + 1e-8)\<close> on the rows of the positive mask.\<close>

definition log_cells :: "fval list \<Rightarrow> fval list" where
  "log_cells xs = map (\<lambda>x. if f_positive x then f_log (f_add x eps) else Fin 0) xs"

text \<open>\<open>sum(axis=1)\<close> skips NaN: a row with no number sums to 0.\<close>

definition nan_add :: "fval \<Rightarrow> fval \<Rightarrow> fval" where
  "nan_add acc x = (if x = FNaN then acc else f_add acc x)"

definition sum_axis1 :: "nat \<Rightarrow> fval list list \<Rightarrow> fval list" where
  "sum_axis1 n cols = foldl (map2 nan_add) (replicate n (Fin 0)) cols"

text \<open>\<open>engineered_df[cols]\<close>: all the labels, or \<open>KeyError\<close>.\<close>

fun get_cols :: "frame \<Rightarrow> string list \<Rightarrow> fval list list option" where
  "get_cols e [] = Some []"
| "get_cols e (c # cs) =
     (case get_col e c of
        None \<Rightarrow> None
      | Some v \<Rightarrow> (case get_cols e cs of None \<Rightarrow> None | Some vs \<Rightarrow> Some (v # vs)))"

subsection \<open>Cleaning: infinities to NaN, NaN to the column median\<close>

definition replace_inf :: "fval list \<Rightarrow> fval list" where
  "replace_inf xs = map (\<lambda>x. if x = PInf \<or> x = NInf then FNaN else x) xs"

definition finite_values :: "fval list \<Rightarrow> real list" where
  "finite_values xs = concat (map (\<lambda>x. case x of Fin r \<Rightarrow> [r] | _ \<Rightarrow> []) xs)"

text \<open>The median of the numbers of a column; \<open>None\<close> is the NaN of a column without numbers.\<close>

definition median :: "fval list \<Rightarrow> real option" where
  "median xs =
     (let vs = sort (finite_values xs); n = length vs
      in if n = 0 then None
         else if odd n then Some (vs ! (n div 2))
         else Some ((vs ! (n div 2 - 1) + vs ! (n div 2)) / 2))"

definition fillna_median :: "fval list \<Rightarrow> fval list" where
  "fillna_median xs =
     (if FNaN \<in> set xs then
        (let median_val = (case median xs of None \<Rightarrow> 0 | Some m \<Rightarrow> m)
         in map (\<lambda>x. if x = FNaN then Fin median_val else x) xs)
      else xs)"

definition clean_column :: "fval list \<Rightarrow> fval list" where
  "clean_column xs = fillna_median (replace_inf xs)"

definition cleanup :: "frame \<Rightarrow> frame" where
  "cleanup e = e\<lparr>fcols := map (\<lambda>(n, v). (n, clean_column v)) (fcols e)\<rparr>"

subsection \<open>Strings\<close>

text \<open>
  \<open>sub in s\<close> is \<^const>\<open>sublist\<close>, \<open>s.endswith(suf)\<close> is \<^const>\<open>suffix\<close>.
  \<open>s.replace(old, '')\<close> removes the occurrences of \<open>old\<close>, scanning from the left.
\<close>

function remove_all :: "string \<Rightarrow> string \<Rightarrow> string" where
  "remove_all old s =
     (if old = [] \<or> s = [] then s
      else if prefix old s then remove_all old (drop (length old) s)
      else hd s # remove_all old (tl s))"
  by pat_completeness auto
termination
  by (relation "measure (\<lambda>(old, s). length s)") auto

declare remove_all.simps [simp del]

fun py_join :: "string \<Rightarrow> string list \<Rightarrow> string" where
  "py_join sep [] = []"
| "py_join sep [p] = p"
| "py_join sep (p # q # ps) = p @ sep @ py_join sep (q # ps)"

definition contains_lower :: "string \<Rightarrow> string \<Rightarrow> bool" where
  "contains_lower sub col = sublist sub (py_lower col)"

subsection \<open>\<open>create_dynamic_features\<close> (prediction.py 1277--1359)\<close>









subsection \<open>\<open>recreate_trained_features\<close> (prediction.py 1160--1275)\<close>

text \<open>
  The search for the two operands: the first split point, from the left, with both sides
  in \<open>base_columns\<close>; the \<open>else\<close> of the loop tries the first split point once more.
\<close>

definition find_split :: "string list \<Rightarrow> string list \<Rightarrow> (string \<times> string) option" where
  "find_split base_columns parts =
     (case find (\<lambda>i. py_join ''_'' (take i parts) \<in> set base_columns
                     \<and> py_join ''_'' (drop i parts) \<in> set base_columns) [1..<length parts] of
        Some i \<Rightarrow> Some (py_join ''_'' (take i parts), py_join ''_'' (drop i parts))
      | None \<Rightarrow>
          (let col1 = hd parts; col2 = py_join ''_'' (tl parts)
           in if col1 \<in> set base_columns \<and> col2 \<in> set base_columns then Some (col1, col2)
              else None))"

text \<open>
  What one pass of the loop does to the feature: assign a column, leave the feature
  unassigned (\<open>continue\<close> with no assignment), or fall through to the zero fill.
  \<open>None\<close> is an exception, which the \<open>except\<close> clause turns into the zero fill as well.
\<close>

datatype outcome = Assign "fval list" | Unassigned | ZeroFill

definition rebuild_pair ::
  "(fval list \<Rightarrow> fval list \<Rightarrow> fval list) \<Rightarrow> string \<Rightarrow> string list \<Rightarrow> frame \<Rightarrow> string
     \<Rightarrow> outcome option" where
  "rebuild_pair op suf base_columns e feature_name =
     (let parts = py_split CHR ''_'' (remove_all suf feature_name)
      in if length parts \<ge> 2 then
           (case find_split base_columns parts of
              None \<Rightarrow> Some Unassigned
            | Some (col1, col2) \<Rightarrow>
                (case (get_col e col1, get_col e col2) of
                   (Some x, Some y) \<Rightarrow> Some (Assign (op x y))
                 | _ \<Rightarrow> None))
         else Some ZeroFill)"

definition rebuild_combined :: "string \<Rightarrow> string list \<Rightarrow> frame \<Rightarrow> outcome option" where
  "rebuild_combined word base_columns e =
     (let cols = filter (contains_lower word) base_columns
      in if length cols > 1
         then (case get_cols e cols of
                 None \<Rightarrow> None
               | Some vs \<Rightarrow> Some (Assign (sum_axis1 (index_len e) vs)))
         else Some ZeroFill)"

definition rebuild_unary ::
  "(fval list \<Rightarrow> fval list) \<Rightarrow> string \<Rightarrow> string list \<Rightarrow> frame \<Rightarrow> string \<Rightarrow> outcome option" where
  "rebuild_unary op suf base_columns e feature_name =
     (let base_col = remove_all suf feature_name
      in if base_col \<in> set base_columns
         then (case get_col e base_col of None \<Rightarrow> None | Some x \<Rightarrow> Some (Assign (op x)))
         else Some ZeroFill)"

definition rebuild :: "string list \<Rightarrow> frame \<Rightarrow> string \<Rightarrow> outcome option" where
  "rebuild base_columns e feature_name =
     (if sublist ''_ratio'' feature_name then
        rebuild_pair ratio_cells ''_ratio'' base_columns e feature_name
      else if sublist ''_interaction'' feature_name then
        rebuild_pair interaction_cells ''_interaction'' base_columns e feature_name
      else if feature_name = ''combined_delays'' then rebuild_combined ''delay'' base_columns e
      else if feature_name = ''combined_counts'' then rebuild_combined ''count'' base_columns e
      else if suffix ''_squared'' feature_name then
        rebuild_unary squared_cells ''_squared'' base_columns e feature_name
      else if suffix ''_log'' feature_name then
        rebuild_unary log_cells ''_log'' base_columns e feature_name
      else Some ZeroFill)"

definition recreate_step :: "string list \<Rightarrow> frame \<Rightarrow> string \<Rightarrow> frame" where
  "recreate_step base_columns e feature_name =
     (case rebuild base_columns e feature_name of
        Some (Assign cells) \<Rightarrow> set_col e feature_name cells
      | Some Unassigned \<Rightarrow> e
      | Some ZeroFill \<Rightarrow> set_scalar e feature_name (Fin 0)
      | None \<Rightarrow> set_scalar e feature_name (Fin 0))"

definition reconstruct :: "data_frame \<Rightarrow> string list \<Rightarrow> string list \<Rightarrow> frame" where
  "reconstruct df trained_feature_columns base_columns =
     (let e = select_columns df base_columns;
          expected_engineered = filter (\<lambda>col. col \<notin> set base_columns) trained_feature_columns
      in foldl (recreate_step base_columns) e expected_engineered)"

text \<open>
  The last loop builds \<open>final_df\<close> from an empty table. A column assigned while the table
  has no rows gives the table its index, and the columns created before it, which had no
  rows, are filled with NaN; a scalar fills the rows the index has at that moment.
\<close>

definition final_step :: "frame \<Rightarrow> frame \<Rightarrow> string \<Rightarrow> frame" where
  "final_step engineered final_df col =
     (case get_col engineered col of
        Some cells \<Rightarrow>
          (let final_df =
                 (if index_len final_df = 0 \<and> index_len engineered > 0
                  then \<lparr>index_len = index_len engineered,
                        fcols = map (\<lambda>(n, v). (n, replicate (index_len engineered) FNaN))
                                  (fcols final_df)\<rparr>
                  else final_df)
           in set_col final_df col cells)
      | None \<Rightarrow> set_scalar final_df col (Fin 0))"

definition recreate_trained_features ::
  "data_frame \<Rightarrow> string list \<Rightarrow> string list \<Rightarrow> py_error + frame" where
  "recreate_trained_features df trained_feature_columns base_columns =
     (if \<not> set base_columns \<subseteq> set (df_names df) then Inl ValueError
      else if \<not> distinct base_columns then Inl ValueError
      else
        (let engineered_df = cleanup (reconstruct df trained_feature_columns base_columns)
         in Inr (foldl (final_step engineered_df) \<lparr>index_len = 0, fcols = []\<rparr>
                   trained_feature_columns)))"


subsection \<open>Notions for the proofs\<close>

text \<open>A table that still carries the base columns and the index of \<open>e0\<close>.\<close>

definition base_intact :: "string list \<Rightarrow> frame \<Rightarrow> frame \<Rightarrow> bool" where
  "base_intact base e0 e \<longleftrightarrow>
     index_len e = index_len e0 \<and> (\<forall>c \<in> set base. get_col e c = get_col e0 c)"

text \<open>The column of a feature after the loop, from the base columns of the raw table.\<close>

definition rebuilt :: "string list \<Rightarrow> frame \<Rightarrow> string \<Rightarrow> fval list option \<Rightarrow> fval list option" where
  "rebuilt base e0 f before =
     (case rebuild base e0 f of
        Some (Assign cells) \<Rightarrow> Some cells
      | Some Unassigned \<Rightarrow> before
      | _ \<Rightarrow> Some (replicate (index_len e0) (Fin 0)))"





definition raw_column :: "data_frame \<Rightarrow> string \<Rightarrow> fval list" where
  "raw_column df c = (case map_of (df_columns df) c of Some (dt, cells) \<Rightarrow> cells | None \<Rightarrow> [])"



section \<open>Properties of the Ensemble Corrector\<close>

lemma final_lower_le_upper:
  "final_lower a b s \<le> final_upper a b s"
proof -
  have "min a b - \<bar>min a b\<bar> * 0.5 \<le> max a b + \<bar>max a b\<bar> * 0.2"
    by (simp add: min_def max_def) argo
  then show ?thesis
    unfolding final_lower_def final_upper_def Let_def by (simp add: min_le_iff_disj le_max_iff_disj)
qed

lemma clamped_pred_bounds:
  "final_lower a b s \<le> clamped_pred p a b s \<and> clamped_pred p a b s \<le> final_upper a b s"
  using final_lower_le_upper [of a b s]
  unfolding clamped_pred_def Let_def by (simp add: min_def max_def)

lemma apply_training_data_bounds_length:
  "apply_training_data_bounds preds ps cs s s1 s2 = Inr out \<Longrightarrow> length out = length preds"
  by (induction preds ps cs s s1 s2 arbitrary: out rule: apply_training_data_bounds.induct)
     (auto split: sum.splits)

lemma apply_training_data_bounds_nth:
  "apply_training_data_bounds preds ps cs s s1 s2 = Inr out \<Longrightarrow> i < length preds \<Longrightarrow>
     i < length ps \<and> i < length cs \<and> out ! i = bound_row (preds ! i) (ps ! i) (cs ! i) s"
proof (induction preds ps cs s s1 s2 arbitrary: out i rule: apply_training_data_bounds.induct)
  case (4 pred predictions p place_slacks c cts_slacks route_stats place_stats cts_stats)
  then show ?case by (cases i) (auto split: sum.splits)
qed simp_all

lemma apply_training_data_bounds_returns:
  "length preds \<le> length ps \<Longrightarrow> length preds \<le> length cs \<Longrightarrow>
     \<exists>out. apply_training_data_bounds preds ps cs s s1 s2 = Inr out"
  by (induction preds ps cs s s1 s2 rule: apply_training_data_bounds.induct) auto

text \<open>
  Claim C4 (bounds invariant). For every row with place input \<open>A\<close>, CTS input \<open>B\<close>,
  prediction \<open>p\<close> and training statistics \<open>s\<close>, the bounds step clamps \<open>p\<close> to
  \<open>[lower, upper]\<close>, where \<open>lower\<close> is the smaller of \<open>s.min - 1 * s.std\<close> and
  \<open>min(A,B) - 0.5 * |min(A,B)|\<close> and \<open>upper\<close> is the larger of \<open>s.max + 1 * s.std\<close> and
  \<open>max(A,B) + 0.2 * |max(A,B)|\<close>. When the clamped value is within 2.0 of \<open>min(A,B)\<close> it is
  returned, so the result lies in \<open>[lower, upper]\<close>; when it differs from \<open>min(A,B)\<close> by
  more than 2.0 the result is exactly \<open>calculate_realistic_route_slack(A,B)\<close>. The array
  function returns whenever the two slack arrays are at least as long as the predictions,
  and its entry \<open>i\<close> is the row result.
\<close>

theorem bounds_invariant:
  fixes A B p :: real and s :: training_stats
  defines "lower \<equiv> min (st_min s - 1 * st_std s) (min A B - 0.5 * \<bar>min A B\<bar>)"
      and "upper \<equiv> max (st_max s + 1 * st_std s) (max A B + 0.2 * \<bar>max A B\<bar>)"
  defines "clamped \<equiv> min (max p lower) upper"
  shows "lower \<le> upper \<and>
         (\<bar>clamped - min A B\<bar> \<le> 2.0 \<longrightarrow>
            bound_row p A B s = clamped \<and> lower \<le> bound_row p A B s \<and> bound_row p A B s \<le> upper) \<and>
         (\<bar>clamped - min A B\<bar> > 2.0 \<longrightarrow>
            bound_row p A B s = calculate_realistic_route_slack A B) \<and>
         (length preds \<le> length ps \<and> length preds \<le> length cs \<longrightarrow>
            (\<exists>out. apply_training_data_bounds preds ps cs s s1 s2 = Inr out \<and>
                 length out = length preds \<and>
                 (\<forall>i < length preds. out ! i = bound_row (preds ! i) (ps ! i) (cs ! i) s)))"
proof -
  have lo: "lower = final_lower A B s"
    unfolding lower_def final_lower_def Let_def by (simp add: min.commute)
  have up: "upper = final_upper A B s"
    unfolding upper_def final_upper_def Let_def by (simp add: max.commute)
  have cl: "clamped = clamped_pred p A B s"
    unfolding clamped_def clamped_pred_def Let_def lo up by simp
  have 1: "lower \<le> upper"
    unfolding lo up by (rule final_lower_le_upper)
  have 2: "bound_row p A B s = clamped \<and> lower \<le> bound_row p A B s \<and> bound_row p A B s \<le> upper"
    if "\<bar>clamped - min A B\<bar> \<le> 2.0"
  proof -
    from that have "bound_row p A B s = clamped"
      unfolding bound_row_def Let_def cl by simp
    then show ?thesis
      using clamped_pred_bounds [of A B s p] unfolding cl lo up by simp
  qed
  have 3: "bound_row p A B s = calculate_realistic_route_slack A B"
    if "\<bar>clamped - min A B\<bar> > 2.0"
    using that unfolding bound_row_def Let_def cl by simp
  have 4: "\<exists>out. apply_training_data_bounds preds ps cs s s1 s2 = Inr out \<and>
             length out = length preds \<and>
             (\<forall>i < length preds. out ! i = bound_row (preds ! i) (ps ! i) (cs ! i) s)"
    if "length preds \<le> length ps" "length preds \<le> length cs"
  proof -
    from apply_training_data_bounds_returns [OF that]
    obtain out where o: "apply_training_data_bounds preds ps cs s s1 s2 = Inr out" by blast
    then show ?thesis
      using apply_training_data_bounds_length [OF o] apply_training_data_bounds_nth [OF o]
      by blast
  qed
  from 1 2 3 4 show ?thesis by blast
qed

theorem bounds_invariant_witness:
  "bound_row 0.5 (-0.5) (-0.3) \<lparr>st_min = -1, st_max = 1, st_mean = 0, st_std = 0.5\<rparr> = 0.5
   \<and> bound_row 10 (-0.5) (-0.3) \<lparr>st_min = -10, st_max = 10, st_mean = 0, st_std = 1\<rparr>
       = calculate_realistic_route_slack (-0.5) (-0.3)
   \<and> (\<exists>out. apply_training_data_bounds [0.5] [-0.5] [-0.3]
          \<lparr>st_min = -1, st_max = 1, st_mean = 0, st_std = 0.5\<rparr>
          \<lparr>st_min = -1, st_max = 1, st_mean = 0, st_std = 0.5\<rparr>
          \<lparr>st_min = -1, st_max = 1, st_mean = 0, st_std = 0.5\<rparr> = Inr out
        \<and> length out = 1
        \<and> out ! 0 = bound_row 0.5 (-0.5) (-0.3) \<lparr>st_min = -1, st_max = 1, st_mean = 0, st_std = 0.5\<rparr>)"
  using bounds_invariant [where s = "\<lparr>st_min = -1, st_max = 1, st_mean = 0, st_std = 0.5\<rparr>"
            and A = "-0.5" and B = "-0.3" and p = "0.5"
            and preds = "[0.5]" and ps = "[-0.5]" and cs = "[-0.3]"
            and ?s1.0 = "\<lparr>st_min = -1, st_max = 1, st_mean = 0, st_std = 0.5\<rparr>"
            and ?s2.0 = "\<lparr>st_min = -1, st_max = 1, st_mean = 0, st_std = 0.5\<rparr>"]
     bounds_invariant [where s = "\<lparr>st_min = -10, st_max = 10, st_mean = 0, st_std = 1\<rparr>"
            and A = "-0.5" and B = "-0.3" and p = "10" and preds = "[]" and ps = "[]" and cs = "[]"]
  by simp

lemma realistic_tier_range:
  "0 < fst (realistic_tier m) \<and> fst (realistic_tier m) < 1 \<and> 0 \<le> snd (realistic_tier m)"
  unfolding realistic_tier_def by simp

lemma blend_between:
  fixes m v w :: real
  assumes "0 < w" and "w < 1" and "m \<le> v"
  shows "m \<le> m * w + v * (1 - w) \<and> m * w + v * (1 - w) \<le> v"
proof -
  have 1: "m * w + v * (1 - w) = v - w * (v - m)" by (simp add: algebra_simps)
  have 2: "m * w + v * (1 - w) = m + (1 - w) * (v - m)" by (simp add: algebra_simps)
  have 3: "0 \<le> w * (v - m)" using assms by simp
  have 4: "0 \<le> (1 - w) * (v - m)" using assms by simp
  from 4 have a: "m \<le> m * w + v * (1 - w)" unfolding 2 by simp
  from 3 have b: "m * w + v * (1 - w) \<le> v" unfolding 1 by simp
  from a b show ?thesis by simp
qed

lemma realistic_unclamped:
  fixes a b :: real
  defines "r \<equiv> realistic_base_route a b + min (\<bar>a - b\<bar> * 0.1) (snd (realistic_tier (min a b)))"
  shows "min a b - 0.03 \<le> r \<and> r \<le> max a b + 0.02"
proof -
  let ?w = "fst (realistic_tier (min a b))" and ?o = "snd (realistic_tier (min a b))"
  let ?m = "min a b" and ?v = "(a + b) / 2"
  from realistic_tier_range [of ?m] have w: "0 < ?w" "?w < 1" and o: "0 \<le> ?o" by simp_all
  have mv: "?m \<le> ?v" by (simp add: min_def)
  from blend_between [OF w mv] have lo: "?m \<le> ?m * ?w + ?v * (1 - ?w)"
    and hi: "?m * ?w + ?v * (1 - ?w) \<le> ?v" by simp_all
  have f0: "0 \<le> min (\<bar>a - b\<bar> * 0.1) ?o" using o by simp
  have f1: "min (\<bar>a - b\<bar> * 0.1) ?o \<le> \<bar>a - b\<bar> * 0.1" by (rule min.cobounded1)
  have vd: "?v + \<bar>a - b\<bar> * 0.1 \<le> max a b" by (cases "a \<le> b") (simp_all add: max_def, argo+)
  have b: "realistic_base_route a b = ?m * ?w + ?v * (1 - ?w)"
    unfolding realistic_base_route_def Let_def by simp
  have "x - 0.03 \<le> y + f \<and> y + f \<le> z + 0.02"
    if "x \<le> y" "y \<le> v" "0 \<le> f" "f \<le> d" "v + d \<le> z" for x y z v f d :: real
    using that by simp
  from this [OF lo hi f0 f1 vd] show ?thesis unfolding r_def b .
qed

text \<open>
  Claim C10 (physics-based tier weighting). The physics-based estimator
  \<open>calculate_realistic_route_slack\<close> weights the worse input \<open>min(A,B)\<close> by 0.95, 0.92,
  0.88 or 0.85 as the timing pressure \<open>|min(A,B)|\<close> is above 1.0, above 0.5, above 0.2 or
  not, blends it with the average, and adds the capped optimization term; its two final
  clamps never bind, so its value is the blend plus that term. For \<open>A = -0.5\<close> and
  \<open>B = -0.3\<close> the pressure is 0.5, which is not above 0.5 and is above 0.2: the weight
  is 0.88, the base blend is \<open>-0.5 * 0.88 + (-0.4) * 0.12 = -0.488\<close>, and the estimator
  returns the blend plus the term 0.02. One point of each other tier is evaluated as well.
\<close>

theorem physics_tier_weighting:
  fixes a b :: real
  shows
  "calculate_realistic_route_slack a b =
     (let m = min a b;
          w = (if \<bar>m\<bar> > 1.0 then 0.95 else if \<bar>m\<bar> > 0.5 then 0.92
               else if \<bar>m\<bar> > 0.2 then 0.88 else 0.85);
          optimization = (if \<bar>m\<bar> > 1.0 then 0.005 else if \<bar>m\<bar> > 0.5 then 0.01
               else if \<bar>m\<bar> > 0.2 then 0.02 else 0.025)
      in m * w + ((a + b) / 2) * (1 - w) + min (\<bar>a - b\<bar> * 0.1) optimization)
   \<and> calculate_realistic_route_slack (-0.5) (-0.3) = (-0.5 * 0.88 + (-0.4) * 0.12) + 0.02
   \<and> calculate_realistic_route_slack (-0.5) (-0.3) = -0.488 + 0.02
   \<and> calculate_realistic_route_slack (-1.5) (-1.3) = (-1.5 * 0.95 + (-1.4) * 0.05) + 0.005
   \<and> calculate_realistic_route_slack (-0.8) (-0.6) = (-0.8 * 0.92 + (-0.7) * 0.08) + 0.01
   \<and> calculate_realistic_route_slack (-0.2) 0 = (-0.2 * 0.85 + (-0.1) * 0.15) + 0.02"
proof -
  have u: "calculate_realistic_route_slack x y =
             realistic_base_route x y + min (\<bar>x - y\<bar> * 0.1) (snd (realistic_tier (min x y)))"
    for x y :: real
    using realistic_unclamped [of x y]
    unfolding calculate_realistic_route_slack_def Let_def by (simp add: min_def max_def)
  have g: "calculate_realistic_route_slack a b =
     (let m = min a b;
          w = (if \<bar>m\<bar> > 1.0 then 0.95 else if \<bar>m\<bar> > 0.5 then 0.92
               else if \<bar>m\<bar> > 0.2 then 0.88 else 0.85);
          optimization = (if \<bar>m\<bar> > 1.0 then 0.005 else if \<bar>m\<bar> > 0.5 then 0.01
               else if \<bar>m\<bar> > 0.2 then 0.02 else 0.025)
      in m * w + ((a + b) / 2) * (1 - w) + min (\<bar>a - b\<bar> * 0.1) optimization)"
    unfolding u realistic_base_route_def realistic_tier_def Let_def by simp
  have 1: "calculate_realistic_route_slack (-0.5) (-0.3) = (-0.5 * 0.88 + (-0.4) * 0.12) + 0.02"
    unfolding u realistic_base_route_def realistic_tier_def Let_def by simp
  have 2: "calculate_realistic_route_slack (-1.5) (-1.3) = (-1.5 * 0.95 + (-1.4) * 0.05) + 0.005"
    unfolding u realistic_base_route_def realistic_tier_def Let_def by simp
  have 3: "calculate_realistic_route_slack (-0.8) (-0.6) = (-0.8 * 0.92 + (-0.7) * 0.08) + 0.01"
    unfolding u realistic_base_route_def realistic_tier_def Let_def by simp
  have 4: "calculate_realistic_route_slack (-0.2) 0 = (-0.2 * 0.85 + (-0.1) * 0.15) + 0.02"
    unfolding u realistic_base_route_def realistic_tier_def Let_def by simp
  from 1 have 5: "calculate_realistic_route_slack (-0.5) (-0.3) = -0.488 + 0.02" by simp
  from g 1 5 2 3 4 show ?thesis by blast
qed
lemma sqrt_less_const: "0 < c \<Longrightarrow> (sqrt x < c) = (x < c ^ 2)"
  by (metis less_eq_real_def real_sqrt_less_iff real_sqrt_abs abs_of_nonneg)

lemma ensemble_weights_sqrt:
  "ensemble_weights (sqrt v) =
     (if v < 0.0001 then [0.3, 0.3, 0.25, 0.15]
      else if v < 0.0009 then [0.25, 0.35, 0.30, 0.10]
      else if v < 0.0036 then [0.15, 0.25, 0.40, 0.20]
      else [0.10, 0.20, 0.55, 0.15])"
proof -
  have a: "(sqrt v < 0.01) = (v < 0.0001)"
    using sqrt_less_const [of "0.01" v] by (simp add: power2_eq_square)
  have b: "(sqrt v < 0.03) = (v < 0.0009)"
    using sqrt_less_const [of "0.03" v] by (simp add: power2_eq_square)
  have c: "(sqrt v < 0.06) = (v < 0.0036)"
    using sqrt_less_const [of "0.06" v] by (simp add: power2_eq_square)
  show ?thesis unfolding ensemble_weights_def a b c by simp
qed

lemma np_std4:
  "np_std [a, b, c, d] =
     sqrt (((a - (a+b+c+d)/4)^2 + (b - (a+b+c+d)/4)^2 + (c - (a+b+c+d)/4)^2 + (d - (a+b+c+d)/4)^2) / 4)"
  by (simp add: np_std_def np_mean_def add.assoc)

lemma ensemble_weights_example: "ensemble_weights (np_std [0.10, 0.12, 0.11, 0.30]) = [0.10, 0.20, 0.55, 0.15]"
  unfolding np_std4 ensemble_weights_sqrt by (simp add: power2_eq_square)

lemma synthetic_at_zero: "calculate_synthetic_route_slack hsh 0 0 = 0"
proof -
  have o: "synthetic_optimization_factor 0 0 = 0"
    unfolding synthetic_optimization_factor_def synthetic_tier_def Let_def by simp
  have c: "correlation_adjustment 0 0 = 0"
    unfolding correlation_adjustment_def Let_def by simp
  have b: "synthetic_bounds 0 0 0 = 0"
    unfolding synthetic_bounds_def Let_def by simp
  show ?thesis
    unfolding calculate_synthetic_route_slack_def Let_def o c by (simp add: b)
qed

lemma improve_row_example: "improve_row 0 0 0 0 1 0 0 = 0.0122"
proof -
  have e: "expected_route_slack 0 0 0 0 0 0 = 0"
    unfolding expected_route_slack_def critical_path_weight_def Let_def by simp
  have w: "correction_weight (\<bar>1 - 0\<bar> / (\<bar>0\<bar> + 0.00000001)) = 0.95"
    unfolding correction_weight_def by simp
  have s: "soft_bounded (1 * (1 - 0.95) + 0 * 0.95) 0 0 = 0.0122"
    unfolding soft_bounded_def Let_def by simp
  show ?thesis
    unfolding improve_row_def Let_def e w s by simp
qed

lemma improve_single_row: "improve_route_predictions [1] [0] [0] = Inr [0.0122]"
proof -
  have m: "np_mean [0] = 0" by (simp add: np_mean_def)
  have d: "np_std [0] = 0" by (simp add: np_std_def np_mean_def)
  show ?thesis
    unfolding improve_route_predictions_def Let_def m d
    by (simp add: improve_row_example)
qed

lemma ensemble_pred_single_row: "ensemble_pred 1 0.0122 0 0 = 0.10244"
  unfolding ensemble_pred_def Let_def np_std4 ensemble_weights_sqrt by (simp add: power2_eq_square)

lemma ensemble_single_row: "ensemble_route_predictions hsh [1] [0] [0] = Inr [0.10244]"
  using ensemble_pred_single_row
  by (simp add: ensemble_route_predictions_def improve_single_row synthetic_at_zero statistical_pred_def)

subsection \<open>The loops return one entry per raw prediction\<close>

lemma improve_loop_returns:
  "length raws \<le> length ps \<Longrightarrow> length raws \<le> length cs \<Longrightarrow>
     \<exists>out. improve_loop pm cm s1 s2 raws ps cs = Inr out"
  by (induction pm cm s1 s2 raws ps cs rule: improve_loop.induct) auto

lemma improve_loop_length:
  "improve_loop pm cm s1 s2 raws ps cs = Inr out \<Longrightarrow> length out = length raws"
  by (induction pm cm s1 s2 raws ps cs arbitrary: out rule: improve_loop.induct)
     (auto split: sum.splits)

lemma improve_loop_nth:
  "improve_loop pm cm s1 s2 raws ps cs = Inr out \<Longrightarrow> i < length raws \<Longrightarrow>
     out ! i = improve_row pm cm s1 s2 (raws ! i) (ps ! i) (cs ! i)"
proof (induction pm cm s1 s2 raws ps cs arbitrary: out i rule: improve_loop.induct)
  case (4 pm cm ps cs raw_pred raws p place_slacks c cts_slacks)
  then show ?case by (cases i) (auto split: sum.splits)
qed simp_all

lemma synthetic_loop_returns:
  "length ps \<le> length cs \<Longrightarrow> \<exists>out. synthetic_loop hsh ps cs = Inr out"
  by (induction hsh ps cs rule: synthetic_loop.induct) auto

lemma synthetic_loop_length:
  "synthetic_loop hsh ps cs = Inr out \<Longrightarrow> length out = length ps"
  by (induction hsh ps cs arbitrary: out rule: synthetic_loop.induct) (auto split: sum.splits)

lemma synthetic_loop_nth:
  "synthetic_loop hsh ps cs = Inr out \<Longrightarrow> i < length ps \<Longrightarrow>
     out ! i = calculate_synthetic_route_slack hsh (ps ! i) (cs ! i)"
proof (induction hsh ps cs arbitrary: out i rule: synthetic_loop.induct)
  case (3 hsh p place_slacks c cts_slacks)
  then show ?case by (cases i) (auto split: sum.splits)
qed simp_all

lemma statistical_loop_returns:
  "length raws \<le> length ps \<Longrightarrow> length raws \<le> length cs \<Longrightarrow>
     \<exists>out. statistical_loop raws ps cs = Inr out"
  by (induction raws ps cs rule: statistical_loop.induct) auto

lemma statistical_loop_length:
  "statistical_loop raws ps cs = Inr out \<Longrightarrow> length out = length raws"
  by (induction raws ps cs arbitrary: out rule: statistical_loop.induct) (auto split: sum.splits)

lemma statistical_loop_nth:
  "statistical_loop raws ps cs = Inr out \<Longrightarrow> i < length raws \<Longrightarrow>
     out ! i = statistical_pred (ps ! i) (cs ! i)"
proof (induction raws ps cs arbitrary: out i rule: statistical_loop.induct)
  case (4 raw_pred raws p place_slacks c cts_slacks)
  then show ?case by (cases i) (auto split: sum.splits)
qed simp_all

lemma ensemble_loop_returns:
  "length raws \<le> length ph \<Longrightarrow> length raws \<le> length sy \<Longrightarrow> length raws \<le> length st \<Longrightarrow>
     \<exists>out. ensemble_loop raws ph sy st = Inr out"
  by (induction raws ph sy st rule: ensemble_loop.induct) auto

lemma ensemble_loop_length:
  "ensemble_loop raws ph sy st = Inr out \<Longrightarrow> length out = length raws"
  by (induction raws ph sy st arbitrary: out rule: ensemble_loop.induct) (auto split: sum.splits)

lemma ensemble_loop_nth:
  "ensemble_loop raws ph sy st = Inr out \<Longrightarrow> i < length raws \<Longrightarrow>
     out ! i = ensemble_pred (raws ! i) (ph ! i) (sy ! i) (st ! i)"
proof (induction raws ph sy st arbitrary: out i rule: ensemble_loop.induct)
  case (2 raw_pred raws physics_pred physics synthetic_pred synthetic stat_pred statistical)
  then show ?case by (cases i) (auto split: sum.splits)
qed simp_all

lemma ensemble_route_predictions_rows:
  assumes "length raws \<le> length ps" and "length ps \<le> length cs"
  shows "\<exists>out. ensemble_route_predictions hsh raws ps cs = Inr out \<and> length out = length raws \<and>
           (\<forall>i < length raws. out ! i =
              ensemble_pred (raws ! i)
                (improve_row (np_mean ps) (np_mean cs) (np_std ps) (np_std cs) (raws ! i) (ps ! i) (cs ! i))
                (calculate_synthetic_route_slack hsh (ps ! i) (cs ! i))
                (statistical_pred (ps ! i) (cs ! i)))"
proof -
  from assms have rc: "length raws \<le> length cs" by simp
  obtain ph where ph: "improve_route_predictions raws ps cs = Inr ph"
    using improve_loop_returns [OF assms(1) rc] unfolding improve_route_predictions_def Let_def
    by blast
  then have ph': "improve_loop (np_mean ps) (np_mean cs) (np_std ps) (np_std cs) raws ps cs = Inr ph"
    unfolding improve_route_predictions_def Let_def .
  obtain sy where sy: "synthetic_loop hsh ps cs = Inr sy"
    using synthetic_loop_returns [OF assms(2)] by blast
  obtain st where st: "statistical_loop raws ps cs = Inr st"
    using statistical_loop_returns [OF assms(1) rc] by blast
  have l1: "length ph = length raws" using improve_loop_length [OF ph'] .
  have l2: "length sy = length ps" using synthetic_loop_length [OF sy] .
  have l3: "length st = length raws" using statistical_loop_length [OF st] .
  obtain out where out: "ensemble_loop raws ph sy st = Inr out"
    using ensemble_loop_returns [of raws ph sy st] l1 l2 l3 assms(1) by auto
  have e: "ensemble_route_predictions hsh raws ps cs = Inr out"
    unfolding ensemble_route_predictions_def by (simp add: ph sy st out)
  have "out ! i = ensemble_pred (raws ! i)
                (improve_row (np_mean ps) (np_mean cs) (np_std ps) (np_std cs) (raws ! i) (ps ! i) (cs ! i))
                (calculate_synthetic_route_slack hsh (ps ! i) (cs ! i))
                (statistical_pred (ps ! i) (cs ! i))" if "i < length raws" for i
  proof -
    from that assms(1) have ip: "i < length ps" by simp
    show ?thesis
      using ensemble_loop_nth [OF out that] improve_loop_nth [OF ph' that]
        synthetic_loop_nth [OF sy ip] statistical_loop_nth [OF st that]
      by simp
  qed
  with e ensemble_loop_length [OF out] show ?thesis by blast
qed

lemma ensemble_pred_tiers:
  "ensemble_pred r p s t =
     (if np_std [r, p, s, t] < 0.01 then r * 0.30 + p * 0.30 + s * 0.25 + t * 0.15
      else if np_std [r, p, s, t] < 0.03 then r * 0.25 + p * 0.35 + s * 0.30 + t * 0.10
      else if np_std [r, p, s, t] < 0.06 then r * 0.15 + p * 0.25 + s * 0.40 + t * 0.20
      else r * 0.10 + p * 0.20 + s * 0.55 + t * 0.15)"
  unfolding ensemble_pred_def ensemble_weights_def Let_def by simp

lemma np_std_tier1: "np_std [0, 0, 0, 0] = 0"
  unfolding np_std4 by simp

lemma np_std_tier2: "np_std [0, 0.04, 0, 0.04] = 0.02"
proof -
  have "np_std [0, 0.04, 0, 0.04] = sqrt (0.02 ^ 2)"
    unfolding np_std4 by (simp add: power2_eq_square)
  then show ?thesis by simp
qed

lemma np_std_tier3: "np_std [0, 0.1, 0, 0.1] = 0.05"
proof -
  have "np_std [0, 0.1, 0, 0.1] = sqrt (0.05 ^ 2)"
    unfolding np_std4 by (simp add: power2_eq_square)
  then show ?thesis by simp
qed

lemma np_std_tier4: "0.06 \<le> np_std [0.10, 0.12, 0.11, 0.30]"
proof -
  have "np_std [0.10, 0.12, 0.11, 0.30] = sqrt (1091 / 160000)"
    unfolding np_std4 by (simp add: power2_eq_square)
  moreover have "\<not> sqrt (1091 / 160000) < 0.06"
    using sqrt_less_const [of "0.06" "1091 / 160000"] by (simp add: power2_eq_square)
  ultimately show ?thesis by simp
qed

text \<open>
  Claim C5 (ensemble combination). For every row the combined estimate is the weighted sum
  of the four estimates \<open>[raw, physics, synthetic, statistical]\<close>, with the weight vector
  chosen by their standard deviation: below 0.01 the weights are \<open>[.30,.30,.25,.15]\<close>,
  below 0.03 \<open>[.25,.35,.30,.10]\<close>, below 0.06 \<open>[.15,.25,.40,.20]\<close>, otherwise
  \<open>[.10,.20,.55,.15]\<close>. The four estimates \<open>[0.10, 0.12, 0.11, 0.30]\<close> select
  \<open>[.10,.20,.55,.15]\<close>. Over the arrays, \<open>ensemble_route_predictions\<close> returns one
  combined value per raw prediction, from the raw value, the row of
  \<open>improve_route_predictions\<close>, the synthetic estimate and the statistical estimate.
\<close>

theorem ensemble_combination:
  "(np_std [r, p, s, t] < 0.01 \<longrightarrow>
      ensemble_pred r p s t = r * 0.30 + p * 0.30 + s * 0.25 + t * 0.15) \<and>
   (0.01 \<le> np_std [r, p, s, t] \<and> np_std [r, p, s, t] < 0.03 \<longrightarrow>
      ensemble_pred r p s t = r * 0.25 + p * 0.35 + s * 0.30 + t * 0.10) \<and>
   (0.03 \<le> np_std [r, p, s, t] \<and> np_std [r, p, s, t] < 0.06 \<longrightarrow>
      ensemble_pred r p s t = r * 0.15 + p * 0.25 + s * 0.40 + t * 0.20) \<and>
   (0.06 \<le> np_std [r, p, s, t] \<longrightarrow>
      ensemble_pred r p s t = r * 0.10 + p * 0.20 + s * 0.55 + t * 0.15) \<and>
   ensemble_weights (np_std [0.10, 0.12, 0.11, 0.30]) = [0.10, 0.20, 0.55, 0.15] \<and>
   (length raws \<le> length ps \<and> length ps \<le> length cs \<longrightarrow>
      (\<exists>out. ensemble_route_predictions hsh raws ps cs = Inr out \<and> length out = length raws \<and>
         (\<forall>i < length raws. out ! i =
            ensemble_pred (raws ! i)
              (improve_row (np_mean ps) (np_mean cs) (np_std ps) (np_std cs) (raws ! i) (ps ! i) (cs ! i))
              (calculate_synthetic_route_slack hsh (ps ! i) (cs ! i))
              (statistical_pred (ps ! i) (cs ! i)))))"
proof -
  have rows: "length raws \<le> length ps \<and> length ps \<le> length cs \<longrightarrow>
      (\<exists>out. ensemble_route_predictions hsh raws ps cs = Inr out \<and> length out = length raws \<and>
         (\<forall>i < length raws. out ! i =
            ensemble_pred (raws ! i)
              (improve_row (np_mean ps) (np_mean cs) (np_std ps) (np_std cs) (raws ! i) (ps ! i) (cs ! i))
              (calculate_synthetic_route_slack hsh (ps ! i) (cs ! i))
              (statistical_pred (ps ! i) (cs ! i))))"
    using ensemble_route_predictions_rows [of raws ps cs hsh] by blast
  have tiers: "(np_std [r, p, s, t] < 0.01 \<longrightarrow>
      ensemble_pred r p s t = r * 0.30 + p * 0.30 + s * 0.25 + t * 0.15) \<and>
   (0.01 \<le> np_std [r, p, s, t] \<and> np_std [r, p, s, t] < 0.03 \<longrightarrow>
      ensemble_pred r p s t = r * 0.25 + p * 0.35 + s * 0.30 + t * 0.10) \<and>
   (0.03 \<le> np_std [r, p, s, t] \<and> np_std [r, p, s, t] < 0.06 \<longrightarrow>
      ensemble_pred r p s t = r * 0.15 + p * 0.25 + s * 0.40 + t * 0.20) \<and>
   (0.06 \<le> np_std [r, p, s, t] \<longrightarrow>
      ensemble_pred r p s t = r * 0.10 + p * 0.20 + s * 0.55 + t * 0.15)"
    unfolding ensemble_pred_tiers by simp
  from tiers ensemble_weights_example rows show ?thesis by blast
qed

theorem ensemble_combination_witness:
  "ensemble_pred 0 0 0 0 = 0
   \<and> ensemble_pred 0 0.04 0 0.04 = 0.018
   \<and> ensemble_pred 0 0.1 0 0.1 = 0.045
   \<and> ensemble_pred 0.10 0.12 0.11 0.30 = 0.1395
   \<and> (\<exists>out. ensemble_route_predictions (\<lambda>p c. 0) [1] [0] [0] = Inr out \<and> length out = 1 \<and>
         out ! 0 = ensemble_pred 1 (improve_row (np_mean [0]) (np_mean [0]) (np_std [0]) (np_std [0]) 1 0 0)
              (calculate_synthetic_route_slack (\<lambda>p c. 0) 0 0) (statistical_pred 0 0))"
proof -
  have 1: "ensemble_pred 0 0 0 0 = 0"
    using ensemble_combination [of 0 0 0 0 "[]" "[]" "[]"] np_std_tier1 by simp
  have 2: "ensemble_pred 0 0.04 0 0.04 = 0.018"
    using ensemble_combination [of 0 "0.04" 0 "0.04" "[]" "[]" "[]"] np_std_tier2 by simp
  have 3: "ensemble_pred 0 0.1 0 0.1 = 0.045"
    using ensemble_combination [of 0 "0.1" 0 "0.1" "[]" "[]" "[]"] np_std_tier3 by simp
  have 4: "ensemble_pred 0.10 0.12 0.11 0.30 = 0.1395"
    using ensemble_combination [of "0.10" "0.12" "0.11" "0.30" "[]" "[]" "[]"] np_std_tier4 by simp
  have 5: "\<exists>out. ensemble_route_predictions (\<lambda>p c. 0) [1] [0] [0] = Inr out \<and> length out = 1 \<and>
         out ! 0 = ensemble_pred 1 (improve_row (np_mean [0]) (np_mean [0]) (np_std [0]) (np_std [0]) 1 0 0)
              (calculate_synthetic_route_slack (\<lambda>p c. 0) 0 0) (statistical_pred 0 0)"
    using ensemble_combination [of 0 0 0 0 "[1]" "[0]" "[0]" "\<lambda>p c. 0"] by simp
  from 1 2 3 4 5 show ?thesis by blast
qed

subsection \<open>The predict path\<close>

lemma improve_row_clamp:
  "min A B - 0.1 \<le> improve_row pm cm s1 s2 raw A B \<and> improve_row pm cm s1 s2 raw A B \<le> max A B + 0.05"
proof -
  have "min A B - 0.1 \<le> max A B + 0.05"
    by (simp add: min_def max_def)
  then show ?thesis
    unfolding improve_row_def Let_def by (simp add: min_def max_def)
qed

lemma replace_garbage_returns:
  "length raws \<le> length merged \<Longrightarrow>
     \<exists>cleaned. replace_garbage emin emax raws merged = Inr cleaned"
proof (induction raws arbitrary: merged)
  case Nil
  then show ?case by simp
next
  case (Cons r raws)
  then obtain row rows where m: "merged = row # rows" by (cases merged) auto
  with Cons.prems have "length raws \<le> length rows" by simp
  from Cons.IH [OF this] obtain cleaned where "replace_garbage emin emax raws rows = Inr cleaned"
    by blast
  then show ?case by (cases row) (simp add: m)
qed

lemma replace_garbage_length:
  "replace_garbage emin emax raws merged = Inr cleaned \<Longrightarrow> length cleaned = length raws"
  by (induction raws arbitrary: merged cleaned)
     (auto split: if_splits list.splits sum.splits prod.splits)

lemma replace_garbage_nth:
  "replace_garbage emin emax raws merged = Inr cleaned \<Longrightarrow> length raws \<le> length merged \<Longrightarrow>
     i < length raws \<Longrightarrow>
     cleaned ! i =
       (if is_garbage emin emax (raws ! i)
        then calculate_realistic_route_slack (fst (merged ! i)) (snd (merged ! i))
        else raws ! i)"
proof (induction raws arbitrary: merged cleaned i)
  case Nil
  then show ?case by simp
next
  case (Cons r raws)
  from Cons.prems(2) obtain a b rows where m: "merged = (a, b) # rows"
    by (cases merged) auto
  with Cons.prems(2) have le: "length raws \<le> length rows" by simp
  from Cons.prems(1) obtain cl where
    r: "replace_garbage emin emax raws rows = Inr cl" and
    c: "cleaned = (if is_garbage emin emax r then calculate_realistic_route_slack a b else r) # cl"
    by (auto simp: m split: if_splits sum.splits)
  show ?case
  proof (cases i)
    case 0
    then show ?thesis by (simp add: c m)
  next
    case (Suc j)
    with Cons.prems(3) have j: "j < length raws" by simp
    from Cons.IH [OF r le j] show ?thesis by (simp add: c m Suc)
  qed
qed

lemma garbage_cleanup_returns:
  assumes "merged \<noteq> []" and "length raws \<le> length merged"
  shows "\<exists>cleaned. garbage_cleanup raws merged = Inr cleaned \<and> length cleaned = length raws"
proof -
  from assms(1) obtain row rows where m: "merged = row # rows" by (cases merged) auto
  obtain emin emax where
    g: "garbage_cleanup raws merged = replace_garbage emin emax raws merged"
    unfolding garbage_cleanup_def np_min_def np_max_def Let_def by (simp add: m)
  from replace_garbage_returns [OF assms(2)] obtain cleaned where
    "replace_garbage emin emax raws merged = Inr cleaned" by blast
  with g replace_garbage_length show ?thesis by fastforce
qed

lemma np_min_Min: "xs \<noteq> [] \<Longrightarrow> np_min xs = Inr (Min (set xs))"
proof (cases xs)
  case Nil
  assume "xs \<noteq> []"
  with Nil show ?thesis by simp
next
  case (Cons a list)
  have "fold min list a = Min (set (a # list))" by (rule Min.set_eq_fold [symmetric])
  then show ?thesis unfolding np_min_def Cons by simp
qed

lemma np_max_Max: "xs \<noteq> [] \<Longrightarrow> np_max xs = Inr (Max (set xs))"
proof (cases xs)
  case Nil
  assume "xs \<noteq> []"
  with Nil show ?thesis by simp
next
  case (Cons a list)
  have "fold max list a = Max (set (a # list))" by (rule Max.set_eq_fold [symmetric])
  then show ?thesis unfolding np_max_def Cons by simp
qed

lemma garbage_cleanup_range:
  assumes "merged \<noteq> []"
  shows "garbage_cleanup raws merged =
           replace_garbage (min (Min (set (map fst merged))) (Min (set (map snd merged))) - 0.1)
             (max (Max (set (map fst merged))) (Max (set (map snd merged))) + 0.1) raws merged"
proof -
  from assms have f: "map fst merged \<noteq> []" and s: "map snd merged \<noteq> []" by simp_all
  show ?thesis
    unfolding garbage_cleanup_def Let_def np_min_Min [OF f] np_min_Min [OF s]
      np_max_Max [OF f] np_max_Max [OF s]
    by simp
qed

lemma replace_garbage_clean:
  "length raws \<le> length merged \<Longrightarrow> \<forall>r \<in> set raws. \<not> is_garbage emin emax r \<Longrightarrow>
     replace_garbage emin emax raws merged = Inr raws"
proof (induction raws arbitrary: merged)
  case Nil
  then show ?case by simp
next
  case (Cons r raws)
  then obtain row rows where m: "merged = row # rows" by (cases merged) auto
  with Cons.prems have "length raws \<le> length rows" "\<forall>r \<in> set raws. \<not> is_garbage emin emax r"
    by simp_all
  from Cons.IH [OF this] Cons.prems(2) show ?case by (simp add: m)
qed

lemma improve_row_formula:
  "improve_row pm cm s1 s2 raw A B =
     (let w = 0.88 + min (\<bar>A - B\<bar> * 0.7) 0.07;
          base = min A B * w + ((A + B) / 2) * (1 - w);
          potential = (if \<bar>min A B\<bar> > 0.8 then 0.005 else if \<bar>min A B\<bar> > 0.4 then 0.012
                       else if \<bar>min A B\<bar> > 0.1 then 0.025 else 0.035);
          optimization = min (potential * (\<bar>A - B\<bar> / (\<bar>(A + B) / 2\<bar> + 0.1))) 0.04;
          correlation = 0.003 * ((A - pm) / (s1 + 0.00000001) + (B - cm) / (s2 + 0.00000001)) / 2;
          expected = base + optimization + correlation;
          relative_error = \<bar>raw - expected\<bar> / (\<bar>expected\<bar> + 0.00000001);
          cw = (if relative_error < 0.01 then 0.05 else if relative_error < 0.03 then 0.15
                else if relative_error < 0.06 then 0.35 else if relative_error < 0.12 then 0.60
                else if relative_error < 0.25 then 0.80 else 0.95);
          corrected = raw * (1 - cw) + expected * cw;
          upper = max A B + (0.008 + min (\<bar>A - B\<bar> * 0.05) 0.025);
          lower = min A B - (0.015 + min (\<bar>min A B\<bar> * 0.08) 0.035);
          soft = (if corrected > upper then upper + (corrected - upper) * 0.1
                  else if corrected < lower then lower - (lower - corrected) * 0.1
                  else corrected)
      in min (max soft (min A B - 0.1)) (max A B + 0.05))"
  unfolding improve_row_def expected_route_slack_def critical_path_weight_def correction_weight_def
    soft_bounded_def Let_def
  by (rule refl)

lemma improve_row_unequal: "improve_row (-0.5) (-0.3) 0 0 (-0.4) (-0.5) (-0.3) = -0.47216"
proof -
  have e: "expected_route_slack (-0.5) (-0.3) 0 0 (-0.5) (-0.3) = -0.4902"
    unfolding expected_route_slack_def critical_path_weight_def Let_def by simp
  have w: "correction_weight (\<bar>-0.4 - (-0.4902)\<bar> / (\<bar>-0.4902\<bar> + 0.00000001)) = 0.80"
    unfolding correction_weight_def by simp
  have s: "soft_bounded (-0.4 * (1 - 0.80) + (-0.4902) * 0.80) (-0.5) (-0.3) = -0.47216"
    unfolding soft_bounded_def Let_def by simp
  show ?thesis
    unfolding improve_row_def Let_def e w s by simp
qed

lemma improve_unequal_row: "improve_route_predictions [-0.4] [-0.5] [-0.3] = Inr [-0.47216]"
proof -
  have m: "np_mean [x] = x" for x by (simp add: np_mean_def)
  have d: "np_std [x] = 0" for x by (simp add: np_std_def np_mean_def)
  show ?thesis
    unfolding improve_route_predictions_def Let_def m d
    using improve_row_unequal by simp
qed

lemma predict_unequal_row:
  "predict_route_predictions [-0.4] [(-0.5, -0.3)]
     (Some (\<lparr>st_min = -1, st_max = 1, st_mean = 0, st_std = 0.5\<rparr>, pst, cst)) = Inr [-0.47216]"
proof -
  have g: "garbage_cleanup [-0.4] [(-0.5, -0.3)] = Inr [-0.4]"
    unfolding garbage_cleanup_def np_min_def np_max_def Let_def
    by (simp add: is_garbage_def)
  have b: "bound_row (-0.47216) (-0.5) (-0.3) \<lparr>st_min = -1, st_max = 1, st_mean = 0, st_std = 0.5\<rparr>
             = -0.47216"
    unfolding bound_row_def clamped_pred_def final_lower_def final_upper_def Let_def by simp
  show ?thesis
    unfolding predict_route_predictions_def using g improve_unequal_row b by simp
qed

lemma predict_route_predictions_rows:
  assumes "merged \<noteq> []" and "length raws = length merged"
  shows "\<exists>cleaned out.
           garbage_cleanup raws merged = Inr cleaned \<and> length cleaned = length raws \<and>
           predict_route_predictions raws merged (Some (rs, pst, cst)) = Inr out \<and>
           length out = length raws \<and>
           (\<forall>i < length raws. out ! i =
              bound_row
                (improve_row (np_mean (map fst merged)) (np_mean (map snd merged))
                   (np_std (map fst merged)) (np_std (map snd merged))
                   (cleaned ! i) (fst (merged ! i)) (snd (merged ! i)))
                (fst (merged ! i)) (snd (merged ! i)) rs)"
proof -
  let ?ps = "map fst merged" and ?cs = "map snd merged"
  from assms(2) have le: "length raws \<le> length merged" by simp
  from garbage_cleanup_returns [OF assms(1) le] obtain cleaned where
    c: "garbage_cleanup raws merged = Inr cleaned" and lc: "length cleaned = length raws" by blast
  have l1: "length cleaned \<le> length ?ps" and l2: "length cleaned \<le> length ?cs"
    using lc assms(2) by simp_all
  obtain imp where
    i': "improve_loop (np_mean ?ps) (np_mean ?cs) (np_std ?ps) (np_std ?cs) cleaned ?ps ?cs = Inr imp"
    using improve_loop_returns [OF l1 l2] by blast
  then have i: "improve_route_predictions cleaned ?ps ?cs = Inr imp"
    unfolding improve_route_predictions_def Let_def .
  have li: "length imp = length cleaned" using improve_loop_length [OF i'] .
  have l3: "length imp \<le> length ?ps" and l4: "length imp \<le> length ?cs"
    using li l1 l2 by simp_all
  obtain out where o: "apply_training_data_bounds imp ?ps ?cs rs pst cst = Inr out"
    using apply_training_data_bounds_returns [OF l3 l4] by blast
  have p: "predict_route_predictions raws merged (Some (rs, pst, cst)) = Inr out"
    unfolding predict_route_predictions_def by (simp add: c i o)
  have lo: "length out = length raws"
    using apply_training_data_bounds_length [OF o] li lc by simp
  have "out ! k = bound_row
                (improve_row (np_mean ?ps) (np_mean ?cs) (np_std ?ps) (np_std ?cs)
                   (cleaned ! k) (fst (merged ! k)) (snd (merged ! k)))
                (fst (merged ! k)) (snd (merged ! k)) rs" if "k < length raws" for k
  proof -
    from that have k1: "k < length imp" and k2: "k < length cleaned" and k3: "k < length merged"
      using li lc assms(2) by simp_all
    show ?thesis
      using apply_training_data_bounds_nth [OF o k1] improve_loop_nth [OF i' k2] k3 by simp
  qed
  with c lc p lo show ?thesis by blast
qed

lemma predict_single_row:
  "predict_route_predictions [1] [(0, 0)]
     (Some (\<lparr>st_min = -1, st_max = 1, st_mean = 0, st_std = 0.5\<rparr>, pst, cst)) = Inr [0.0122]"
proof -
  have g: "garbage_cleanup [1] [(0, 0)] = Inr [1]"
    unfolding garbage_cleanup_def np_min_def np_max_def is_garbage_def Let_def
    by (simp add: is_garbage_def)
  have b: "bound_row 0.0122 0 0 \<lparr>st_min = -1, st_max = 1, st_mean = 0, st_std = 0.5\<rparr> = 0.0122"
    unfolding bound_row_def clamped_pred_def final_lower_def final_upper_def Let_def by simp
  show ?thesis
    unfolding predict_route_predictions_def using b by (simp add: g improve_single_row)
qed

lemma predict_garbage_row:
  "predict_route_predictions [100] [(0, 0)]
     (Some (\<lparr>st_min = -1, st_max = 1, st_mean = 0, st_std = 0.5\<rparr>, pst, cst)) = Inr [0]"
proof -
  have r: "calculate_realistic_route_slack 0 0 = 0"
    unfolding calculate_realistic_route_slack_def realistic_base_route_def realistic_tier_def Let_def
    by simp
  have g: "garbage_cleanup [100] [(0, 0)] = Inr [0]"
    unfolding garbage_cleanup_def np_min_def np_max_def Let_def
    by (simp add: is_garbage_def r)
  have e: "expected_route_slack 0 0 0 0 0 0 = 0"
    unfolding expected_route_slack_def critical_path_weight_def Let_def by simp
  have w: "correction_weight (\<bar>0 - 0\<bar> / (\<bar>0\<bar> + 0.00000001)) = 0.05"
    unfolding correction_weight_def by simp
  have s: "soft_bounded (0 * (1 - 0.05) + 0 * 0.05) 0 0 = 0"
    unfolding soft_bounded_def Let_def by simp
  have i: "improve_row 0 0 0 0 0 0 0 = 0"
    unfolding improve_row_def Let_def e w s by simp
  have m: "np_mean [0] = 0" by (simp add: np_mean_def)
  have d: "np_std [0] = 0" by (simp add: np_std_def np_mean_def)
  have ip: "improve_route_predictions [0] [0] [0] = Inr [0]"
    unfolding improve_route_predictions_def Let_def m d by (simp add: i)
  have b: "bound_row 0 0 0 \<lparr>st_min = -1, st_max = 1, st_mean = 0, st_std = 0.5\<rparr> = 0"
    unfolding bound_row_def clamped_pred_def final_lower_def final_upper_def Let_def by simp
  show ?thesis
    unfolding predict_route_predictions_def using b by (simp add: g ip)
qed

lemma improve_then_bounds_garbage_row:
  "improve_then_bounds [100] [(0, 0)]
     (\<lparr>st_min = -1, st_max = 1, st_mean = 0, st_std = 0.5\<rparr>, pst, cst) = Inr [0.05]"
proof -
  have e: "expected_route_slack 0 0 0 0 0 0 = 0"
    unfolding expected_route_slack_def critical_path_weight_def Let_def by simp
  have w: "correction_weight (\<bar>100 - 0\<bar> / (\<bar>0\<bar> + 0.00000001)) = 0.95"
    unfolding correction_weight_def by simp
  have s: "soft_bounded (100 * (1 - 0.95) + 0 * 0.95) 0 0 = 0.5072"
    unfolding soft_bounded_def Let_def by simp
  have i: "improve_row 0 0 0 0 100 0 0 = 0.05"
    unfolding improve_row_def Let_def e w s by simp
  have m: "np_mean [0] = 0" by (simp add: np_mean_def)
  have d: "np_std [0] = 0" by (simp add: np_std_def np_mean_def)
  have ip: "improve_route_predictions [100] [0] [0] = Inr [0.05]"
    unfolding improve_route_predictions_def Let_def m d using i by simp
  have b: "bound_row 0.05 0 0 \<lparr>st_min = -1, st_max = 1, st_mean = 0, st_std = 0.5\<rparr> = 0.05"
    unfolding bound_row_def clamped_pred_def final_lower_def final_upper_def Let_def by simp
  show ?thesis
    unfolding improve_then_bounds_def using ip b by simp
qed

lemma predict_rows_cleaned:
  assumes "merged \<noteq> []" and "length raws = length merged"
  shows "\<exists>cleaned. garbage_cleanup raws merged = Inr cleaned \<and> length cleaned = length raws \<and>
           (\<forall>i < length raws. cleaned ! i =
              (if raws ! i < min (Min (set (map fst merged))) (Min (set (map snd merged))) - 0.1 - 1.0
                  \<or> raws ! i > max (Max (set (map fst merged))) (Max (set (map snd merged))) + 0.1 + 1.0
               then calculate_realistic_route_slack (fst (merged ! i)) (snd (merged ! i))
               else raws ! i))"
proof -
  from assms(2) have le: "length raws \<le> length merged" by simp
  from garbage_cleanup_returns [OF assms(1) le] obtain cleaned where
    c: "garbage_cleanup raws merged = Inr cleaned" and lc: "length cleaned = length raws" by blast
  from c have r: "replace_garbage (min (Min (set (map fst merged))) (Min (set (map snd merged))) - 0.1)
             (max (Max (set (map fst merged))) (Max (set (map snd merged))) + 0.1) raws merged = Inr cleaned"
    unfolding garbage_cleanup_range [OF assms(1)] .
  from replace_garbage_nth [OF r le] c lc show ?thesis
    unfolding is_garbage_def by blast
qed

lemma predict_untrained_rows:
  assumes "garbage_cleanup raws merged = Inr cleaned" and "length cleaned = length merged"
  shows "\<exists>out. predict_route_predictions raws merged None = Inr out \<and> length out = length cleaned \<and>
           (\<forall>i < length cleaned. out ! i =
              improve_row (np_mean (map fst merged)) (np_mean (map snd merged))
                (np_std (map fst merged)) (np_std (map snd merged))
                (cleaned ! i) (fst (merged ! i)) (snd (merged ! i)))"
proof -
  let ?ps = "map fst merged" and ?cs = "map snd merged"
  have l1: "length cleaned \<le> length ?ps" and l2: "length cleaned \<le> length ?cs"
    using assms(2) by simp_all
  obtain imp where
    i': "improve_loop (np_mean ?ps) (np_mean ?cs) (np_std ?ps) (np_std ?cs) cleaned ?ps ?cs = Inr imp"
    using improve_loop_returns [OF l1 l2] by blast
  then have i: "improve_route_predictions cleaned ?ps ?cs = Inr imp"
    unfolding improve_route_predictions_def Let_def .
  have p: "predict_route_predictions raws merged None = Inr imp"
    unfolding predict_route_predictions_def by (simp add: assms(1) i)
  have "imp ! k = improve_row (np_mean ?ps) (np_mean ?cs) (np_std ?ps) (np_std ?cs)
                (cleaned ! k) (fst (merged ! k)) (snd (merged ! k))" if "k < length cleaned" for k
    using improve_loop_nth [OF i' that] that assms(2) by simp
  with p improve_loop_length [OF i'] show ?thesis by blast
qed

lemma predict_clean_is_improve_then_bounds:
  assumes "length raws \<le> length merged" and "merged \<noteq> []"
      and "\<forall>r \<in> set raws.
             min (Min (set (map fst merged))) (Min (set (map snd merged))) - 0.1 - 1.0 \<le> r
           \<and> r \<le> max (Max (set (map fst merged))) (Max (set (map snd merged))) + 0.1 + 1.0"
  shows "predict_route_predictions raws merged (Some training) = improve_then_bounds raws merged training"
proof -
  from assms(3) have "\<forall>r \<in> set raws. \<not> is_garbage
      (min (Min (set (map fst merged))) (Min (set (map snd merged))) - 0.1)
      (max (Max (set (map fst merged))) (Max (set (map snd merged))) + 0.1) r"
    unfolding is_garbage_def by (simp add: not_less)
  from replace_garbage_clean [OF assms(1) this]
  have "garbage_cleanup raws merged = Inr raws"
    unfolding garbage_cleanup_range [OF assms(2)] .
  then show ?thesis
    unfolding predict_route_predictions_def improve_then_bounds_def
    by (simp split: sum.splits prod.splits)
qed

text \<open>
  Claim C6 (the correction on the predict path), as the code has it. Let the expected
  range be \<open>[min over both input columns - 0.1, max over both input columns + 0.1]\<close>.
  The prediction endpoint first replaces each raw regressor output that lies more than
  1.0 outside the expected range by \<open>calculate_realistic_route_slack\<close> of its row, and
  passes the outcome to \<open>improve_route_predictions\<close>; when the model carries training
  statistics the improved values go through \<open>apply_training_data_bounds\<close>, otherwise they
  are returned as they are. It never calls \<open>ensemble_route_predictions\<close>. When no raw
  output is that far outside, the endpoint with statistics is
  \<open>improve_route_predictions\<close> followed by \<open>apply_training_data_bounds\<close> on the raw
  output. The improvement of a row moves the raw value towards the expected slack built
  on the continuous critical-path weight \<open>0.88 + min(0.7 * |A - B|, 0.07)\<close>, keeps one
  tenth of an overshoot or undershoot beyond its soft bounds, and finally clamps to
  \<open>[min(A,B) - 0.1, max(A,B) + 0.05]\<close>. For the single row \<open>A = -0.5\<close>, \<open>B = -0.3\<close> with
  raw output \<open>-0.4\<close> the endpoint returns \<open>-0.47216\<close>. For the single row \<open>A = B = 0\<close>
  with raw output 1 the endpoint returns 0.0122 while the four-estimator combination is
  0.10244, whatever the string hash: the two differ.
\<close>

theorem predict_path_correction:
  fixes merged :: "(real \<times> real) list" and raws :: "real list"
  defines "expected_min \<equiv> min (Min (set (map fst merged))) (Min (set (map snd merged))) - 0.1"
      and "expected_max \<equiv> max (Max (set (map fst merged))) (Max (set (map snd merged))) + 0.1"
  defines "cleaned \<equiv> \<lambda>i. if raws ! i < expected_min - 1.0 \<or> raws ! i > expected_max + 1.0
                          then calculate_realistic_route_slack (fst (merged ! i)) (snd (merged ! i))
                          else raws ! i"
  defines "improved \<equiv> \<lambda>i. improve_row (np_mean (map fst merged)) (np_mean (map snd merged))
                             (np_std (map fst merged)) (np_std (map snd merged))
                             (cleaned i) (fst (merged ! i)) (snd (merged ! i))"
  shows
   "(merged \<noteq> [] \<and> length raws = length merged \<longrightarrow>
        (\<exists>out. predict_route_predictions raws merged (Some (rs, pst, cst)) = Inr out \<and>
           length out = length raws \<and>
           (\<forall>i < length raws. out ! i = bound_row (improved i) (fst (merged ! i)) (snd (merged ! i)) rs))
      \<and> (\<exists>out. predict_route_predictions raws merged None = Inr out \<and>
           length out = length raws \<and> (\<forall>i < length raws. out ! i = improved i))
      \<and> ((\<forall>r \<in> set raws. expected_min - 1.0 \<le> r \<and> r \<le> expected_max + 1.0) \<longrightarrow>
           predict_route_predictions raws merged (Some (rs, pst, cst))
             = improve_then_bounds raws merged (rs, pst, cst)))
   \<and> improve_row pm cm s1 s2 raw A B =
     (let w = 0.88 + min (\<bar>A - B\<bar> * 0.7) 0.07;
          base = min A B * w + ((A + B) / 2) * (1 - w);
          potential = (if \<bar>min A B\<bar> > 0.8 then 0.005 else if \<bar>min A B\<bar> > 0.4 then 0.012
                       else if \<bar>min A B\<bar> > 0.1 then 0.025 else 0.035);
          optimization = min (potential * (\<bar>A - B\<bar> / (\<bar>(A + B) / 2\<bar> + 0.1))) 0.04;
          correlation = 0.003 * ((A - pm) / (s1 + 0.00000001) + (B - cm) / (s2 + 0.00000001)) / 2;
          expected = base + optimization + correlation;
          relative_error = \<bar>raw - expected\<bar> / (\<bar>expected\<bar> + 0.00000001);
          cw = (if relative_error < 0.01 then 0.05 else if relative_error < 0.03 then 0.15
                else if relative_error < 0.06 then 0.35 else if relative_error < 0.12 then 0.60
                else if relative_error < 0.25 then 0.80 else 0.95);
          corrected = raw * (1 - cw) + expected * cw;
          upper = max A B + (0.008 + min (\<bar>A - B\<bar> * 0.05) 0.025);
          lower = min A B - (0.015 + min (\<bar>min A B\<bar> * 0.08) 0.035);
          soft = (if corrected > upper then upper + (corrected - upper) * 0.1
                  else if corrected < lower then lower - (lower - corrected) * 0.1
                  else corrected)
      in min (max soft (min A B - 0.1)) (max A B + 0.05))
   \<and> min A B - 0.1 \<le> improve_row pm cm s1 s2 raw A B
   \<and> improve_row pm cm s1 s2 raw A B \<le> max A B + 0.05
   \<and> predict_route_predictions [-0.4] [(-0.5, -0.3)]
        (Some (\<lparr>st_min = -1, st_max = 1, st_mean = 0, st_std = 0.5\<rparr>, pst, cst)) = Inr [-0.47216]
   \<and> predict_route_predictions [1] [(0, 0)]
        (Some (\<lparr>st_min = -1, st_max = 1, st_mean = 0, st_std = 0.5\<rparr>, pst, cst)) = Inr [0.0122]
   \<and> ensemble_route_predictions hsh [1] [0] [0] = Inr [0.10244]
   \<and> predict_route_predictions [1] [(0, 0)]
        (Some (\<lparr>st_min = -1, st_max = 1, st_mean = 0, st_std = 0.5\<rparr>, pst, cst))
       \<noteq> ensemble_route_predictions hsh [1] [0] [0]"
proof -
  have rows: "(\<exists>out. predict_route_predictions raws merged (Some (rs, pst, cst)) = Inr out \<and>
           length out = length raws \<and>
           (\<forall>i < length raws. out ! i = bound_row (improved i) (fst (merged ! i)) (snd (merged ! i)) rs))
      \<and> (\<exists>out. predict_route_predictions raws merged None = Inr out \<and>
           length out = length raws \<and> (\<forall>i < length raws. out ! i = improved i))
      \<and> ((\<forall>r \<in> set raws. expected_min - 1.0 \<le> r \<and> r \<le> expected_max + 1.0) \<longrightarrow>
           predict_route_predictions raws merged (Some (rs, pst, cst))
             = improve_then_bounds raws merged (rs, pst, cst))"
    if ne: "merged \<noteq> []" and len: "length raws = length merged"
  proof -
    from predict_rows_cleaned [OF ne len] obtain cl where
      g: "garbage_cleanup raws merged = Inr cl" and lc: "length cl = length raws" and
      n: "\<forall>i < length raws. cl ! i = cleaned i"
      unfolding cleaned_def expected_min_def expected_max_def by blast
    from predict_route_predictions_rows [OF ne len, of rs pst cst] g obtain out where
      o: "predict_route_predictions raws merged (Some (rs, pst, cst)) = Inr out"
         "length out = length raws"
         "\<forall>i < length raws. out ! i =
              bound_row
                (improve_row (np_mean (map fst merged)) (np_mean (map snd merged))
                   (np_std (map fst merged)) (np_std (map snd merged))
                   (cl ! i) (fst (merged ! i)) (snd (merged ! i)))
                (fst (merged ! i)) (snd (merged ! i)) rs"
      by auto
    from o(3) n have o3: "\<forall>i < length raws. out ! i =
        bound_row (improved i) (fst (merged ! i)) (snd (merged ! i)) rs"
      unfolding improved_def by simp
    from lc len have lm: "length cl = length merged" by simp
    from predict_untrained_rows [OF g lm] obtain out' where
      u: "predict_route_predictions raws merged None = Inr out'" "length out' = length cl"
         "\<forall>i < length cl. out' ! i =
              improve_row (np_mean (map fst merged)) (np_mean (map snd merged))
                (np_std (map fst merged)) (np_std (map snd merged))
                (cl ! i) (fst (merged ! i)) (snd (merged ! i))"
      by blast
    from u(3) n lc have u3: "\<forall>i < length raws. out' ! i = improved i"
      unfolding improved_def by simp
    from len have le: "length raws \<le> length merged" by simp
    have c: "predict_route_predictions raws merged (Some (rs, pst, cst))
             = improve_then_bounds raws merged (rs, pst, cst)"
      if "\<forall>r \<in> set raws. expected_min - 1.0 \<le> r \<and> r \<le> expected_max + 1.0"
      using predict_clean_is_improve_then_bounds [OF le ne, of "(rs, pst, cst)"] that
      unfolding expected_min_def expected_max_def by blast
    from o(1,2) o3 u(1,2) u3 lc c show ?thesis by auto
  qed
  have d: "predict_route_predictions [1] [(0, 0)]
        (Some (\<lparr>st_min = -1, st_max = 1, st_mean = 0, st_std = 0.5\<rparr>, pst, cst))
       \<noteq> ensemble_route_predictions hsh [1] [0] [0]"
    unfolding predict_single_row ensemble_single_row by simp
  from rows improve_row_formula [of pm cm s1 s2 raw A B] improve_row_clamp [of A B pm cm s1 s2 raw]
    predict_unequal_row [of pst cst] predict_single_row [of pst cst] ensemble_single_row [of hsh] d
  show ?thesis by blast
qed

text \<open>
  The claim as stated fails where the raw output is far outside the expected range: for
  the single row \<open>A = B = 0\<close> with raw output 100 the endpoint returns 0, while
  \<open>improve_route_predictions\<close> followed by \<open>apply_training_data_bounds\<close> on the raw output
  gives 0.05.
\<close>

theorem predict_path_counterexample:
  "predict_route_predictions [100] [(0, 0)]
     (Some (\<lparr>st_min = -1, st_max = 1, st_mean = 0, st_std = 0.5\<rparr>,
            \<lparr>st_min = -1, st_max = 1, st_mean = 0, st_std = 0.5\<rparr>,
            \<lparr>st_min = -1, st_max = 1, st_mean = 0, st_std = 0.5\<rparr>)) = Inr [0]
   \<and> improve_then_bounds [100] [(0, 0)]
     (\<lparr>st_min = -1, st_max = 1, st_mean = 0, st_std = 0.5\<rparr>,
      \<lparr>st_min = -1, st_max = 1, st_mean = 0, st_std = 0.5\<rparr>,
      \<lparr>st_min = -1, st_max = 1, st_mean = 0, st_std = 0.5\<rparr>) = Inr [0.05]
   \<and> predict_route_predictions [100] [(0, 0)]
     (Some (\<lparr>st_min = -1, st_max = 1, st_mean = 0, st_std = 0.5\<rparr>,
            \<lparr>st_min = -1, st_max = 1, st_mean = 0, st_std = 0.5\<rparr>,
            \<lparr>st_min = -1, st_max = 1, st_mean = 0, st_std = 0.5\<rparr>))
     \<noteq> improve_then_bounds [100] [(0, 0)]
     (\<lparr>st_min = -1, st_max = 1, st_mean = 0, st_std = 0.5\<rparr>,
      \<lparr>st_min = -1, st_max = 1, st_mean = 0, st_std = 0.5\<rparr>,
      \<lparr>st_min = -1, st_max = 1, st_mean = 0, st_std = 0.5\<rparr>)"
  unfolding predict_garbage_row improve_then_bounds_garbage_row by simp

theorem predict_path_correction_witness:
  "(\<exists>out. predict_route_predictions [-0.4] [(-0.5, -0.3)]
             (Some (\<lparr>st_min = -1, st_max = 1, st_mean = 0, st_std = 0.5\<rparr>,
                    \<lparr>st_min = -1, st_max = 1, st_mean = 0, st_std = 0.5\<rparr>,
                    \<lparr>st_min = -1, st_max = 1, st_mean = 0, st_std = 0.5\<rparr>)) = Inr out \<and>
           length out = length [-0.4 :: real])
   \<and> (\<exists>out. predict_route_predictions [-0.4] [(-0.5, -0.3)] None = Inr out \<and>
           length out = length [-0.4 :: real])
   \<and> predict_route_predictions [-0.4] [(-0.5, -0.3)]
             (Some (\<lparr>st_min = -1, st_max = 1, st_mean = 0, st_std = 0.5\<rparr>,
                    \<lparr>st_min = -1, st_max = 1, st_mean = 0, st_std = 0.5\<rparr>,
                    \<lparr>st_min = -1, st_max = 1, st_mean = 0, st_std = 0.5\<rparr>))
       = improve_then_bounds [-0.4] [(-0.5, -0.3)]
             (\<lparr>st_min = -1, st_max = 1, st_mean = 0, st_std = 0.5\<rparr>,
              \<lparr>st_min = -1, st_max = 1, st_mean = 0, st_std = 0.5\<rparr>,
              \<lparr>st_min = -1, st_max = 1, st_mean = 0, st_std = 0.5\<rparr>)"
proof -
  let ?st = "\<lparr>st_min = -1, st_max = 1, st_mean = 0, st_std = 0.5\<rparr>"
  let ?m = "[(-0.5 :: real, -0.3 :: real)]" and ?r = "[-0.4 :: real]"
  note t = predict_path_correction [where merged = ?m and raws = ?r
      and rs = ?st and pst = ?st and cst = ?st, THEN conjunct1]
  have h: "?m \<noteq> [] \<and> length ?r = length ?m" by simp
  have c: "\<forall>r \<in> set ?r.
      min (Min (set (map fst ?m))) (Min (set (map snd ?m))) - 0.1 - 1.0 \<le> r
      \<and> r \<le> max (Max (set (map fst ?m))) (Max (set (map snd ?m))) + 0.1 + 1.0"
    by simp
  from t h c show ?thesis by blast
qed

section \<open>Properties of the Alignment Engine\<close>






subsection \<open>Up to 17 rows the quicksort is a stable insertion sort\<close>

lemma insert_right_snoc:
  "insert_right f x (ys @ [y]) =
     (if f x < f y then insert_right f x ys @ [y] else ys @ [y, x])"
  unfolding insert_right_def by simp

lemma insert_right_Nil [simp]: "insert_right f x [] = [x]"
  unfolding insert_right_def by simp

lemma length_insert_right [simp]: "length (insert_right f x ys) = Suc (length ys)"
proof -
  have "length (dropWhile P zs) + length (takeWhile P zs) = length zs" for P and zs :: "'a list"
    by (induction zs) auto
  from this [of "\<lambda>y. f x < f y" "rev ys"] show ?thesis unfolding insert_right_def by simp
qed

lemma mset_insert_right [simp]: "mset (insert_right f x ys) = add_mset x (mset ys)"
proof -
  have "mset (dropWhile P zs) + mset (takeWhile P zs) = mset zs" for P and zs :: "'a list"
    by (induction zs) auto
  from this [of "\<lambda>y. f x < f y" "rev ys"] show ?thesis unfolding insert_right_def by simp
qed


lemma set_insert_right [simp]: "set (insert_right f x ys) = insert x (set ys)"
  by (induction ys rule: rev_induct) (auto simp: insert_right_snoc)













lemma quicksort_eighteen:
  "npy_aquicksort [''a'', ''b'', ''b'', ''b'', ''b'', ''b'', ''b'', ''b'', ''b'', ''b'',
                   ''b'', ''b'', ''b'', ''b'', ''b'', ''b'', ''b'', ''b'']
     = Some [0, 15, 14, 13, 12, 11, 10, 9, 8, 7, 6, 5, 4, 3, 2, 1, 16, 17]"
  by code_simp


text \<open>
  Claim C3 (endpoint normalization). The definition in force reduces a slash-delimited
  identifier to its last two segments and neither trims nor lower-cases:
  \<open>top/u1/reg[3]\<close> gives \<open>u1/reg[3]\<close>, and \<open>TOP/U1/REG[3]\<close> gives \<open>U1/REG[3]\<close>, a
  different key, so a place table with the one and a CTS table with the other have no
  common endpoint and the prediction path stops with an HTTP error instead of joining the
  rows. The shadowed first definition does trim and lower-case.
\<close>

theorem normalize_endpoint_case_sensitive:
  "normalize_endpoint (Str ''top/u1/reg[3]'') = ''u1/reg[3]''
   \<and> normalize_endpoint (Str ''TOP/U1/REG[3]'') = ''U1/REG[3]''
   \<and> normalize_endpoint (Str ''TOP/U1/REG[3]'') \<noteq> normalize_endpoint (Str ''top/u1/reg[3]'')
   \<and> normalize_endpoint (Str '' top/u1/reg[3] '') = ''u1/reg[3] ''
   \<and> normalize_endpoint_shadowed (Str '' TOP/U1/REG[3] '') = ''top/u1/reg[3]''
   \<and> predict_align [(Str ''top/u1/reg[3]'', p)] [(Str ''TOP/U1/REG[3]'', c)] = Inl HTTPException"
  by (simp add: normalize_endpoint_def normalize_endpoint_shadowed_def py_lower_def py_strip_def
      lower_char_def is_space_def predict_align_def normalized_endpoint_def)


section \<open>Properties of the Schema Inspector\<close>

lemma qualifies_iff:
  "qualifies parses df col \<longleftrightarrow>
     col_dtype col \<noteq> OtherDtype \<and> 5 * numeric_count parses col > 4 * nrows df"
proof -
  have "(real (numeric_count parses col) > real (nrows df) * 0.8)
          = (5 * numeric_count parses col > 4 * nrows df)"
  proof -
    have "(real (numeric_count parses col) > real (nrows df) * 0.8)
            = (real (5 * numeric_count parses col) > real (4 * nrows df))"
      by auto
    then show ?thesis using of_nat_less_iff by metis
  qed
  then show ?thesis
    unfolding qualifies_def by (cases "col_dtype col") auto
qed

text \<open>
  Claim C7 (feature qualification), as the code has it. In a table with distinct column
  labels, a column other than the target qualifies as a feature when its dtype is one of
  float64, int64, float32, int32, int16, int8 or object and more than 80% of the rows of
  the table (missing entries included) are non-missing after numeric coercion; it does not
  qualify when fewer than 80% of the rows are, nor when its dtype is any other.
\<close>

theorem feature_qualification:
  assumes "distinct (map col_name (columns df))"
      and "col \<in> set (columns df)"
      and "target_col \<noteq> Some (col_name col)"
  shows "(col_dtype col \<noteq> OtherDtype \<and> 5 * numeric_count parses col > 4 * nrows df
            \<longrightarrow> col_name col \<in> set (detect_feature_columns parses df target_col))
       \<and> (5 * numeric_count parses col < 4 * nrows df
            \<longrightarrow> col_name col \<notin> set (detect_feature_columns parses df target_col))
       \<and> (col_dtype col = OtherDtype
            \<longrightarrow> col_name col \<notin> set (detect_feature_columns parses df target_col))"
proof -
  have ex: "col_name col \<notin> (case target_col of
               None \<Rightarrow> {}
             | Some t \<Rightarrow> if t \<noteq> [] \<and> t \<in> set (map col_name (columns df)) then {t} else {})"
    using assms(3) by (auto split: option.splits)
  have uniq: "c = col" if "c \<in> set (columns df)" "col_name c = col_name col" for c
    using assms(1,2) that by (meson distinct_map inj_onD)
  have "col_name col \<in> set (detect_feature_columns parses df target_col)
          \<longleftrightarrow> qualifies parses df col"
  proof
    assume "col_name col \<in> set (detect_feature_columns parses df target_col)"
    then obtain c where "c \<in> set (columns df)" "col_name c = col_name col" "qualifies parses df c"
      unfolding detect_feature_columns_def Let_def by auto
    with uniq show "qualifies parses df col" by auto
  next
    assume "qualifies parses df col"
    with ex assms(2) show "col_name col \<in> set (detect_feature_columns parses df target_col)"
      unfolding detect_feature_columns_def Let_def by force
  qed
  then show ?thesis unfolding qualifies_iff by auto
qed

text \<open>
  The claim as stated fails: a float64 column, half of whose entries are missing, is of
  numeric declared type and does not qualify.
\<close>

theorem feature_qualification_counterexample:
  "detect_feature_columns (\<lambda>s. False)
     \<lparr>nrows = 2, columns = [\<lparr>col_name = ''fanout'', col_dtype = Float64, col_cells = [Number, Missing]\<rparr>]\<rparr>
     (Some ''slack'') = []"
  by (simp add: detect_feature_columns_def qualifies_def numeric_count_def notna_after_coerce_def)

theorem feature_qualification_witness:
  "''fanout'' \<in> set (detect_feature_columns (\<lambda>s. s = ''1.5'')
      \<lparr>nrows = 5, columns =
         [\<lparr>col_name = ''fanout'', col_dtype = Object,
           col_cells = [Text ''1.5'', Number, Number, Text ''1.5'', Number]\<rparr>,
          \<lparr>col_name = ''cell'', col_dtype = Object,
           col_cells = [Text ''1.5'', Text ''buf'', Text ''inv'', Text ''1.5'', Number]\<rparr>,
          \<lparr>col_name = ''flag'', col_dtype = OtherDtype,
           col_cells = [Number, Number, Number, Number, Number]\<rparr>]\<rparr> (Some ''slack''))
   \<and> ''cell'' \<notin> set (detect_feature_columns (\<lambda>s. s = ''1.5'')
      \<lparr>nrows = 5, columns =
         [\<lparr>col_name = ''fanout'', col_dtype = Object,
           col_cells = [Text ''1.5'', Number, Number, Text ''1.5'', Number]\<rparr>,
          \<lparr>col_name = ''cell'', col_dtype = Object,
           col_cells = [Text ''1.5'', Text ''buf'', Text ''inv'', Text ''1.5'', Number]\<rparr>,
          \<lparr>col_name = ''flag'', col_dtype = OtherDtype,
           col_cells = [Number, Number, Number, Number, Number]\<rparr>]\<rparr> (Some ''slack''))
   \<and> ''flag'' \<notin> set (detect_feature_columns (\<lambda>s. s = ''1.5'')
      \<lparr>nrows = 5, columns =
         [\<lparr>col_name = ''fanout'', col_dtype = Object,
           col_cells = [Text ''1.5'', Number, Number, Text ''1.5'', Number]\<rparr>,
          \<lparr>col_name = ''cell'', col_dtype = Object,
           col_cells = [Text ''1.5'', Text ''buf'', Text ''inv'', Text ''1.5'', Number]\<rparr>,
          \<lparr>col_name = ''flag'', col_dtype = OtherDtype,
           col_cells = [Number, Number, Number, Number, Number]\<rparr>]\<rparr> (Some ''slack''))"
proof -
  let ?fanout = "\<lparr>col_name = ''fanout'', col_dtype = Object,
           col_cells = [Text ''1.5'', Number, Number, Text ''1.5'', Number]\<rparr>"
  let ?cell = "\<lparr>col_name = ''cell'', col_dtype = Object,
           col_cells = [Text ''1.5'', Text ''buf'', Text ''inv'', Text ''1.5'', Number]\<rparr>"
  let ?flag = "\<lparr>col_name = ''flag'', col_dtype = OtherDtype,
           col_cells = [Number, Number, Number, Number, Number]\<rparr>"
  let ?df = "\<lparr>nrows = 5, columns = [?fanout, ?cell, ?flag]\<rparr>"
  let ?p = "\<lambda>s. s = ''1.5''"
  have d: "distinct (map col_name (columns ?df))" by simp
  have 1: "''fanout'' \<in> set (detect_feature_columns ?p ?df (Some ''slack''))"
    using feature_qualification [OF d, of ?fanout "Some ''slack''" ?p]
    by (simp add: numeric_count_def notna_after_coerce_def)
  have 2: "''cell'' \<notin> set (detect_feature_columns ?p ?df (Some ''slack''))"
    using feature_qualification [OF d, of ?cell "Some ''slack''" ?p]
    by (simp add: numeric_count_def notna_after_coerce_def)
  have 3: "''flag'' \<notin> set (detect_feature_columns ?p ?df (Some ''slack''))"
    using feature_qualification [OF d, of ?flag "Some ''slack''" ?p]
    by (simp add: numeric_count_def notna_after_coerce_def)
  from 1 2 3 show ?thesis by blast
qed




section \<open>Properties of the Feature Reconstructor\<close>

subsection \<open>Frames\<close>


lemma index_len_set_col [simp]: "index_len (set_col e c v) = index_len e"
  unfolding set_col_def by simp

lemma map_of_replace_same:
  "c \<in> fst ` set xs \<Longrightarrow>
     map_of (map (\<lambda>(n, w). if n = c then (n, v) else (n, w)) xs) c = Some v"
  by (induction xs) auto

lemma map_of_replace_other:
  "c' \<noteq> c \<Longrightarrow>
     map_of (map (\<lambda>(n, w). if n = c then (n, v) else (n, w)) xs) c' = map_of xs c'"
  by (induction xs) auto

lemma get_col_set_col:
  "get_col (set_col e c v) c' = (if c' = c then Some v else get_col e c')"
proof (cases "c \<in> set (names e)")
  case True
  then show ?thesis
    unfolding get_col_def set_col_def names_def
    by (cases "c' = c") (simp_all add: map_of_replace_same map_of_replace_other)
next
  case False
  then have "map_of (fcols e) c = None"
    unfolding names_def by (simp add: map_of_eq_None_iff)
  with False show ?thesis
    unfolding get_col_def set_col_def names_def by (auto simp: map_add_def split: option.splits)
qed

lemma get_col_names: "get_col e c \<noteq> None \<longleftrightarrow> c \<in> set (names e)"
  unfolding get_col_def names_def by (simp add: map_of_eq_None_iff)


lemma get_col_set_scalar:
  "get_col (set_scalar e c v) c' = (if c' = c then Some (replicate (index_len e) v) else get_col e c')"
  unfolding set_scalar_def by (rule get_col_set_col)

lemma index_len_set_scalar [simp]: "index_len (set_scalar e c v) = index_len e"
  unfolding set_scalar_def by simp

lemma names_cleanup [simp]: "names (cleanup e) = names e"
proof -
  have "map fst (map (\<lambda>(n, v). (n, clean_column v)) xs) = map fst xs" for xs
    by (induction xs) auto
  then show ?thesis unfolding names_def cleanup_def by simp
qed

lemma index_len_cleanup [simp]: "index_len (cleanup e) = index_len e"
  unfolding cleanup_def by simp

lemma get_col_cleanup: "get_col (cleanup e) c = map_option clean_column (get_col e c)"
proof -
  have "map_of (map (\<lambda>(n, v). (n, clean_column v)) xs) c = map_option clean_column (map_of xs c)" for xs
    by (induction xs) auto
  then show ?thesis unfolding get_col_def cleanup_def by simp
qed

lemma names_select_columns [simp]: "names (select_columns df base) = base"
  unfolding names_def select_columns_def by (simp add: comp_def)

lemma index_len_select_columns [simp]: "index_len (select_columns df base) = df_len df"
  unfolding select_columns_def by simp

lemma get_cols_cong:
  "\<forall>c \<in> set cs. get_col e c = get_col e' c \<Longrightarrow> get_cols e cs = get_cols e' cs"
  by (induction cs) (auto split: option.splits)

lemma get_cols_Some:
  "set cs \<subseteq> set (names e) \<Longrightarrow> \<exists>vs. get_cols e cs = Some vs"
proof (induction cs)
  case Nil
  then show ?case by simp
next
  case (Cons c cs)
  then obtain v where "get_col e c = Some v" using get_col_names [of e c] by auto
  moreover from Cons obtain vs where "get_cols e cs = Some vs" by auto
  ultimately show ?case by simp
qed

subsection \<open>One pass of the reconstruction loop reads the base columns only\<close>

lemma find_split_in_base:
  "find_split base parts = Some (c1, c2) \<Longrightarrow> c1 \<in> set base \<and> c2 \<in> set base"
  unfolding find_split_def Let_def
  by (auto split: option.splits if_splits dest: find_Some_iff [THEN iffD1])

lemma rebuild_pair_cong:
  assumes "\<And>c. c \<in> set base \<Longrightarrow> get_col e c = get_col e' c"
  shows "rebuild_pair op suf base e f = rebuild_pair op suf base e' f"
proof -
  have "(case (get_col e c1, get_col e c2) of (Some x, Some y) \<Rightarrow> Some (Assign (op x y)) | _ \<Rightarrow> None)
      = (case (get_col e' c1, get_col e' c2) of (Some x, Some y) \<Rightarrow> Some (Assign (op x y)) | _ \<Rightarrow> None)"
    if "find_split base parts = Some (c1, c2)" for parts c1 c2
    using find_split_in_base [OF that] assms by simp
  then show ?thesis
    unfolding rebuild_pair_def Let_def by (auto split: option.splits)
qed

lemma rebuild_cong:
  assumes "\<And>c. c \<in> set base \<Longrightarrow> get_col e c = get_col e' c" and "index_len e = index_len e'"
  shows "rebuild base e f = rebuild base e' f"
proof -
  have c: "get_cols e (filter P base) = get_cols e' (filter P base)" for P
    by (rule get_cols_cong) (use assms(1) in auto)
  have u: "rebuild_unary op suf base e f = rebuild_unary op suf base e' f" for op suf
    unfolding rebuild_unary_def Let_def using assms(1) by simp
  have m: "rebuild_combined w base e = rebuild_combined w base e'" for w
    unfolding rebuild_combined_def Let_def c assms(2) by simp
  show ?thesis
    unfolding rebuild_def using rebuild_pair_cong [OF assms(1)] u m by simp
qed

lemma base_intact_refl [simp]: "base_intact base e e"
  unfolding base_intact_def by simp

lemma base_intact_set_col:
  "base_intact base e0 e \<Longrightarrow> f \<notin> set base \<Longrightarrow> base_intact base e0 (set_col e f v)"
  unfolding base_intact_def by (auto simp: get_col_set_col)

lemma base_intact_recreate_step:
  "base_intact base e0 e \<Longrightarrow> f \<notin> set base \<Longrightarrow> base_intact base e0 (recreate_step base e f)"
  unfolding recreate_step_def set_scalar_def
  by (auto split: option.splits outcome.splits intro: base_intact_set_col)

lemma rebuild_base_intact:
  "base_intact base e0 e \<Longrightarrow> rebuild base e f = rebuild base e0 f"
  unfolding base_intact_def by (rule rebuild_cong) auto

lemma get_col_recreate_step:
  assumes "base_intact base e0 e"
  shows "get_col (recreate_step base e f) c =
           (if c = f then rebuilt base e0 f (get_col e f) else get_col e c)"
  using assms rebuild_base_intact [OF assms, of f]
  unfolding recreate_step_def rebuilt_def base_intact_def
  by (auto simp: get_col_set_col get_col_set_scalar split: option.splits outcome.splits)

lemma get_col_reconstruct_loop:
  assumes "base_intact base e0 e" and "set fs \<inter> set base = {}"
  shows "get_col (foldl (recreate_step base) e fs) c =
           (if c \<in> set fs then rebuilt base e0 c (get_col e c) else get_col e c)"
  using assms
proof (induction fs arbitrary: e)
  case Nil
  then show ?case by simp
next
  case (Cons f fs)
  let ?e = "recreate_step base e f"
  from Cons.prems have f: "f \<notin> set base" and fs: "set fs \<inter> set base = {}" by auto
  have bi: "base_intact base e0 ?e"
    using base_intact_recreate_step [OF Cons.prems(1) f] .
  have g: "get_col ?e c = (if c = f then rebuilt base e0 f (get_col e f) else get_col e c)"
    using get_col_recreate_step [OF Cons.prems(1)] .
  have idem: "rebuilt base e0 c (rebuilt base e0 c b) = rebuilt base e0 c b" for b
    unfolding rebuilt_def by (auto split: option.splits outcome.splits)
  show ?case
    using Cons.IH [OF bi fs] g idem by auto
qed


subsection \<open>The last loop\<close>

lemma index_len_final_step:
  "index_len (final_step eng fin c) =
     (if get_col eng c \<noteq> None \<and> index_len fin = 0 then index_len eng else index_len fin)"
  unfolding final_step_def Let_def by (auto split: option.splits)

lemma get_col_final_step_present:
  assumes "get_col eng c = Some v"
  shows "get_col (final_step eng fin c) c = Some v"
  using assms unfolding final_step_def Let_def by (simp add: get_col_set_col)

lemma get_col_final_loop:
  assumes "get_col eng c = Some v" and "c \<in> set cs"
  shows "get_col (foldl (final_step eng) fin cs) c = Some v"
proof -
  have keep: "get_col (foldl (final_step eng) fin cs) c = Some v"
    if "get_col fin c = Some v" "index_len eng > 0 \<longrightarrow> index_len fin > 0" for fin cs
    using that
  proof (induction cs arbitrary: fin)
    case Nil
    then show ?case by simp
  next
    case (Cons d cs)
    have 1: "get_col (final_step eng fin d) c = Some v"
      using Cons.prems assms(1) unfolding final_step_def Let_def
      by (auto simp: get_col_set_col get_col_set_scalar split: option.splits)
    have 2: "index_len eng > 0 \<longrightarrow> index_len (final_step eng fin d) > 0"
      using Cons.prems(2) by (auto simp: index_len_final_step)
    from Cons.IH [OF 1 2] show ?case by simp
  qed
  from assms(2) show ?thesis
  proof (induction cs arbitrary: fin)
    case Nil
    then show ?case by simp
  next
    case (Cons d cs)
    show ?case
    proof (cases "d = c")
      case True
      have 1: "get_col (final_step eng fin c) c = Some v"
        using get_col_final_step_present [OF assms(1)] .
      have 2: "index_len eng > 0 \<longrightarrow> index_len (final_step eng fin c) > 0"
        using assms(1) by (auto simp: index_len_final_step)
      from keep [OF 1 2] True show ?thesis by simp
    next
      case False
      with Cons show ?thesis by simp
    qed
  qed
qed





lemma get_col_select_columns:
  "c \<in> set base \<Longrightarrow>
     get_col (select_columns df base) c =
       Some (case map_of (df_columns df) c of Some (dt, cells) \<Rightarrow> cells | None \<Rightarrow> [])"
proof -
  have "c \<in> set base \<Longrightarrow> map_of (map (\<lambda>c. (c, g c)) base) c = Some (g c)" for g :: "string \<Rightarrow> fval list"
    by (induction base) auto
  then show "c \<in> set base \<Longrightarrow> ?thesis"
    unfolding get_col_def select_columns_def by simp
qed


lemma recreate_returns:
  assumes "set base \<subseteq> set (df_names df)" and "distinct base"
  shows "recreate_trained_features df trained base =
           Inr (foldl (final_step (cleanup (reconstruct df trained base)))
                  \<lparr>index_len = 0, fcols = []\<rparr> trained)"
  using assms unfolding recreate_trained_features_def Let_def by simp

lemma get_col_reconstruct:
  assumes "f \<in> set trained" and "f \<notin> set base"
  shows "get_col (reconstruct df trained base) f =
           rebuilt base (select_columns df base) f None"
proof -
  let ?e0 = "select_columns df base"
  let ?fs = "filter (\<lambda>col. col \<notin> set base) trained"
  have d: "set ?fs \<inter> set base = {}" by auto
  have n: "get_col ?e0 f = None"
    using assms(2) get_col_names [of ?e0 f] by simp
  from assms have "f \<in> set ?fs" by simp
  then show ?thesis
    unfolding reconstruct_def Let_def
    using get_col_reconstruct_loop [OF base_intact_refl d, of ?e0 f] n by simp
qed

subsection \<open>Features the loop zero-fills or leaves unassigned\<close>











lemma index_len_reconstruct [simp]: "index_len (reconstruct df trained base) = df_len df"
proof -
  have "index_len (foldl (recreate_step base) e fs) = index_len e" for e fs
  proof (induction fs arbitrary: e)
    case Nil
    then show ?case by simp
  next
    case (Cons f fs)
    have "index_len (recreate_step base e f) = index_len e"
      unfolding recreate_step_def by (auto split: option.splits outcome.splits)
    with Cons show ?case by simp
  qed
  then show ?thesis unfolding reconstruct_def Let_def by simp
qed

subsection \<open>The last loop on a feature that is not a column of the engineered table\<close>

















lemma upt_1_3: "[1..<3] = [1, 2]"
  by (simp add: upt_rec)

lemma arrival_parts:
  "py_split CHR ''_'' (remove_all ''_ratio'' ''arrival_time_slack_ratio'')
     = [''arrival'', ''time'', ''slack'']"
  by code_simp

lemma arrival_find_split:
  assumes "set base = {''arrival_time'', ''slack''}"
  shows "find_split base [''arrival'', ''time'', ''slack''] = Some (''arrival_time'', ''slack'')"
  unfolding find_split_def by (simp add: upt_1_3 assms)

lemma arrival_rebuild:
  assumes "set base = {''arrival_time'', ''slack''}"
      and "get_col e ''arrival_time'' = Some x" and "get_col e ''slack'' = Some y"
  shows "rebuild base e ''arrival_time_slack_ratio'' = Some (Assign (ratio_cells x y))"
proof -
  have s: "sublist ''_ratio'' ''arrival_time_slack_ratio''" by code_simp
  show ?thesis
    unfolding rebuild_def rebuild_pair_def Let_def arrival_parts
    using s arrival_find_split [OF assms(1)] assms(2,3) by simp
qed

text \<open>
  Claim C9 (ambiguous underscores). With base columns exactly \<open>arrival_time\<close> and
  \<open>slack\<close>, both columns of the raw table, the operand search on the trained feature
  name \<open>arrival_time_slack_ratio\<close> yields the split \<open>(arrival_time, slack)\<close>, and the
  reconstructed column is \<open>arrival_time / (|slack| + 1e-8)\<close> row by row, cleaned like
  every column (an infinity or NaN becomes the column median).
\<close>

theorem arrival_time_slack_ratio:
  assumes "set base = {''arrival_time'', ''slack''}" and "distinct base"
      and "map_of (df_columns df) ''arrival_time'' = Some (dt1, x)"
      and "map_of (df_columns df) ''slack'' = Some (dt2, y)"
      and "''arrival_time_slack_ratio'' \<in> set trained"
  shows "find_split base
           (py_split CHR ''_'' (remove_all ''_ratio'' ''arrival_time_slack_ratio''))
           = Some (''arrival_time'', ''slack'')
       \<and> (\<exists>t. recreate_trained_features df trained base = Inr t
             \<and> get_col t ''arrival_time_slack_ratio''
                 = Some (clean_column (map2 (\<lambda>a s. f_div a (f_add (f_abs s) (Fin 0.00000001))) x y)))"
proof -
  let ?f = "''arrival_time_slack_ratio''"
  let ?e0 = "select_columns df base"
  have "''arrival_time'' \<in> set (df_names df)"
    using map_of_SomeD [OF assms(3)] unfolding df_names_def by force
  moreover have "''slack'' \<in> set (df_names df)"
    using map_of_SomeD [OF assms(4)] unfolding df_names_def by force
  ultimately have in_df: "set base \<subseteq> set (df_names df)"
    unfolding assms(1) by simp
  have gx: "get_col ?e0 ''arrival_time'' = Some x" and gy: "get_col ?e0 ''slack'' = Some y"
    using assms(1,3,4) by (simp_all add: get_col_select_columns)
  have nb: "?f \<notin> set base" using assms(1) by simp
  have "get_col (reconstruct df trained base) ?f = Some (ratio_cells x y)"
    using get_col_reconstruct [OF assms(5) nb, of df] arrival_rebuild [OF assms(1) gx gy]
    unfolding rebuilt_def by simp
  then have "get_col (cleanup (reconstruct df trained base)) ?f = Some (clean_column (ratio_cells x y))"
    by (simp add: get_col_cleanup)
  from get_col_final_loop [OF this assms(5)] recreate_returns [OF in_df assms(2), of trained]
  have "\<exists>t. recreate_trained_features df trained base = Inr t
          \<and> get_col t ?f = Some (clean_column (ratio_cells x y))"
    by simp
  then show ?thesis
    unfolding arrival_parts ratio_cells_def eps_def using arrival_find_split [OF assms(1)] by simp
qed




theorem arrival_time_slack_ratio_witness:
  "\<exists>t. recreate_trained_features
          \<lparr>df_len = 2, df_columns =
             [(''arrival_time'', Float64, [Fin 3, Fin (-1)]), (''slack'', Float64, [Fin (-2), Fin 0])]\<rparr>
          [''arrival_time'', ''slack'', ''arrival_time_slack_ratio''] [''arrival_time'', ''slack'']
        = Inr t
      \<and> get_col t ''arrival_time_slack_ratio''
          = Some [Fin (3 / (2 + 0.00000001)), Fin (-1 / 0.00000001)]"
proof -
  let ?df = "\<lparr>df_len = 2, df_columns =
             [(''arrival_time'', Float64, [Fin 3, Fin (-1)]), (''slack'', Float64, [Fin (-2), Fin 0])]\<rparr>"
  let ?r = "[Fin (3 / (2 + 0.00000001)), Fin (-1 / 0.00000001)]"
  have h1: "set [''arrival_time'', ''slack''] = {''arrival_time'', ''slack''}" by simp
  have h2: "distinct [''arrival_time'', ''slack'']" by simp
  have h3: "map_of (df_columns ?df) ''arrival_time'' = Some (Float64, [Fin 3, Fin (-1)])" by simp
  have h4: "map_of (df_columns ?df) ''slack'' = Some (Float64, [Fin (-2), Fin 0])" by simp
  have h5: "''arrival_time_slack_ratio''
              \<in> set [''arrival_time'', ''slack'', ''arrival_time_slack_ratio'']" by simp
  have m: "map2 (\<lambda>a s. f_div a (f_add (f_abs s) (Fin 0.00000001))) [Fin 3, Fin (-1)] [Fin (-2), Fin 0]
             = ?r"
    by simp
  have c: "clean_column ?r = ?r"
    unfolding clean_column_def replace_inf_def fillna_median_def by simp
  from arrival_time_slack_ratio [OF h1 h2 h3 h4 h5, unfolded m c]
  show ?thesis by blast
qed

section \<open>Round trip of the Feature Engineer and the Feature Reconstructor\<close>

subsection \<open>Strings: occurrences, removal, split and join\<close>



lemma remove_all_Nil [simp]: "remove_all old [] = []"
  by (simp add: remove_all.simps)








subsection \<open>Names that parse back\<close>












subsection \<open>The engineer is the reconstruction loop on its own feature names\<close>















subsection \<open>Round trip\<close>














end
